theory Spec2Isabelle
  imports Main
begin

section \<open>The serial connection manager of \<open>com_manager/SerialManager_libs\<close>\<close>

text \<open>
  The development embeds \<open>portmonitor.py\<close> and \<open>serialmanager.py\<close>: the port monitor's
  scan, the two identifier strategies and the connection manager.

  The Python objects are mutated in place; here every method takes the state and returns
  the new one. The manager, its \<open>QSerialPort\<close> and its identifier are one record, since
  the identifier works on the manager's own serial port object.

  What the Qt library does is not in the repository; the model fixes it as follows.
  \<^item> Signals are delivered synchronously: \<open>emit\<close> runs the connected slots before it
    returns. \<open>connect\<close> adds one connection of the slot, also where the slot is connected
    already; \<open>disconnect\<close> removes every connection of the slot, and does nothing where
    there is none (PySide reports that case; the identifier catches the report, and
    \<open>_identify_device\<close> is taken to go on). An emission serves the connections that exist
    when it starts, in order, and skips those removed in the meantime.
  \<^item> The port reports its errors through \<open>errorOccurred\<close>, which the constructor connects
    to \<open>_on_error\<close>: \<open>open()\<close> on an open port fails with \<open>OpenError\<close>, otherwise it
    clears the error (\<open>NoError\<close>, which \<open>_on_error\<close> ignores) and fails with the
    error the world decides; \<open>waitForReadyRead()\<close> that times out sets \<open>TimeoutError\<close>.
    Each time the error text is set first and \<open>_on_error\<close> runs before the failing call
    returns. Errors that arrive on their own are the notification \<open>TransportError\<close>.
  \<^item> The identifier's own data-ready connection is a flag: \<open>SimpleIdentifier.start\<close>
    removes the connection before it adds it, so there is never more than one.
  \<^item> The signals the manager emits to its caller are appended to \<open>events\<close>, the signals
    an identifier emits to \<open>signals\<close>, the byte strings written to the port to
    \<open>written\<close>. \<open>starts\<close> counts the calls of \<open>start\<close>, \<open>restarts\<close> those made while
    the timer of an earlier call was still running, and \<open>removals\<close> how often the
    connections of \<open>failed\<close> have been removed (an emission of \<open>failed\<close> compares it
    to know whether its connections are still there).
  \<^item> What the outside world decides is a parameter: whether a port opens, the text of
    an error, and what a blocking wait reads within the timeout (record \<open>env\<close>); the
    ports listed by \<open>QSerialPortInfo.availablePorts()\<close> are an argument of the operations
    that call it.
  \<^item> The port raises data-ready only while it is open, and the one-shot timer fires only
    while it is active.
\<close>

subsection \<open>Data\<close>

type_synonym bytes = string

datatype SerialManagerState = DISCONNECTED | IDENTIFYING | CONNECTED

text \<open>\<open>QSerialPortInfo\<close>: \<open>hasVendorIdentifier()\<close> is \<open>vendorIdentifier p \<noteq> None\<close>.\<close>

record port_info =
  portName :: string
  vendorIdentifier :: "int option"
  productIdentifier :: "int option"

text \<open>The signals of \<open>SerialManager\<close>, of the identifiers and of \<open>PortMonitor\<close>.\<close>

datatype event =
    connected string
  | disconnected
  | data_received bytes
  | error_occurred string

datatype id_signal = identified | failed

datatype monitor_signal = port_added port_info | port_removed port_info

datatype identifier_kind = BlockingIdentifier | SimpleIdentifier

datatype SerialPortError =
    NoError
  | DeviceNotFoundError
  | PermissionError
  | OpenError
  | ResourceError
  | TimeoutError
  | UnknownError

text \<open>\<open>open_outcome\<close>: \<open>NoError\<close> when the port opens, the error it fails with otherwise.\<close>

record env =
  open_outcome :: "port_info \<Rightarrow> SerialPortError"
  errorString :: "SerialPortError \<Rightarrow> port_info \<Rightarrow> string"
  reply :: "port_info \<Rightarrow> nat \<Rightarrow> bytes option"

record manager =
  vid :: "int option"
  pid :: "int option"
  serial_open :: bool
  serial_port :: port_info
  error_string :: string
  written :: "bytes list"
  state :: SerialManagerState
  available_ports :: "port_info list"
  events :: "event list"
  ready_read_conns :: nat
  identified_conns :: nat
  failed_conns :: nat
  removals :: nat
  port_added_conns :: nat
  kind :: identifier_kind
  id_command :: bytes
  expected_response :: bytes
  timeout_ms :: nat
  timer_active :: bool
  ident_ready_read :: bool
  signals :: "id_signal list"
  starts :: nat
  restarts :: nat

text \<open>
  \<open>SerialManager.__init__\<close> with an identifier built from \<open>id_command\<close>,
  \<open>expected_response\<close> and \<open>timeout_ms\<close>: the manager's \<open>_on_ready_read\<close> is connected
  once, nothing else is. (The error text is not read before an error has set it.)
\<close>

definition initial :: "identifier_kind \<Rightarrow> bytes \<Rightarrow> bytes \<Rightarrow> nat \<Rightarrow> manager" where
  "initial k cmd expected ms =
     \<lparr>vid = None, pid = None, serial_open = False,
      serial_port = \<lparr>portName = [], vendorIdentifier = None, productIdentifier = None\<rparr>,
      error_string = [],
      written = [], state = DISCONNECTED, available_ports = [], events = [],
      ready_read_conns = 1, identified_conns = 0, failed_conns = 0, removals = 0,
      port_added_conns = 0,
      kind = k, id_command = cmd, expected_response = expected, timeout_ms = ms,
      timer_active = False, ident_ready_read = False, signals = [], starts = 0,
      restarts = 0\<rparr>"

subsection \<open>The port monitor\<close>

text \<open>
  \<open>PortMonitor._scan\<close>, from the remembered names and the ports enumerated now to the
  signals emitted, in order, and the names remembered afterwards. Both loops of the source
  run over \<open>ports\<close>, the ports enumerated now.
\<close>

definition scan :: "string set \<Rightarrow> port_info list \<Rightarrow> monitor_signal list \<times> string set" where
  "scan known_ports ports =
     (let current_names = set (map portName ports)
      in (map port_added (filter (\<lambda>port. portName port \<notin> known_ports) ports) @
          map port_removed (filter (\<lambda>port. portName port \<in> known_ports - current_names) ports),
          current_names))"

subsection \<open>The response check of the identifiers\<close>

text \<open>
  \<open>bytes.strip()\<close> without an argument removes ASCII whitespace (space, tab, line feed,
  carriage return, vertical tab, form feed) at both ends.
\<close>

definition is_space :: "char \<Rightarrow> bool" where
  "is_space c = (c = CHR 0x20 \<or> c = CHR 0x09 \<or> c = CHR 0x0A \<or> c = CHR 0x0D \<or>
                 c = CHR 0x0B \<or> c = CHR 0x0C)"

definition strip :: "bytes \<Rightarrow> bytes" where
  "strip bs = rev (dropWhile is_space (rev (dropWhile is_space bs)))"

text \<open>The trimming the specification words: trailing whitespace only.\<close>

definition trim_trailing :: "bytes \<Rightarrow> bytes" where
  "trim_trailing bs = rev (dropWhile is_space (rev bs))"

subsection \<open>The connection manager\<close>

definition emit :: "event \<Rightarrow> manager \<Rightarrow> manager" where
  "emit ev s = s\<lparr>events := events s @ [ev]\<rparr>"

definition signal :: "id_signal \<Rightarrow> manager \<Rightarrow> manager" where
  "signal sg s = s\<lparr>signals := signals s @ [sg]\<rparr>"

definition port_matches_filters :: "manager \<Rightarrow> port_info \<Rightarrow> bool" where
  "port_matches_filters s port_info =
     (if vid s \<noteq> None \<and>
         \<not> (vendorIdentifier port_info \<noteq> None \<and> vendorIdentifier port_info = vid s)
      then False
      else if pid s \<noteq> None \<and>
         \<not> (productIdentifier port_info \<noteq> None \<and> productIdentifier port_info = pid s)
      then False
      else True)"

text \<open>
  \<open>SerialManager._on_identified\<close>. \<open>disconnect\<close> takes every connection of
  \<open>_on_identified\<close> off \<open>identified\<close> and every connection of \<open>disconnect\<close> off
  \<open>failed\<close>.
\<close>

definition on_identified :: "manager \<Rightarrow> manager" where
  "on_identified s =
     emit (connected (portName (serial_port s)))
       (s\<lparr>state := CONNECTED, available_ports := [],
          identified_conns := 0,
          failed_conns := 0, removals := Suc (removals s),
          ready_read_conns := Suc (ready_read_conns s)\<rparr>)"

text \<open>
  \<open>identified.emit()\<close> without the record in \<open>signals\<close>: the first connection runs
  \<open>_on_identified\<close>, which removes the others, so that the slot runs once.
\<close>

definition deliver_identified :: "manager \<Rightarrow> manager" where
  "deliver_identified s = (if identified_conns s = 0 then s else on_identified s)"

text \<open>The port sets its error text; \<open>errorOccurred\<close> follows.\<close>

definition set_error :: "env \<Rightarrow> SerialPortError \<Rightarrow> manager \<Rightarrow> manager" where
  "set_error e error s = s\<lparr>error_string := errorString e error (serial_port s)\<rparr>"

text \<open>
  The loop of \<open>_try_next_port\<close> (\<open>try_loop\<close>), \<open>_on_error\<close>, \<open>_identify_device\<close>, the
  identifier's \<open>start\<close>, the slots run by \<open>failed.emit()\<close> (\<open>emit_failed\<close>, with the
  value of \<open>removals\<close> at the start of the emission and the number of connections still
  to serve), \<open>disconnect\<close> and \<open>_try_next_port\<close> call each other: a failing \<open>open()\<close> and
  a blocking wait that times out run \<open>_on_error\<close>, \<open>_on_error\<close> calls \<open>disconnect\<close>, a
  blocking identifier signals inside \<open>start\<close>, \<open>failed\<close> is connected to \<open>disconnect\<close>,
  and \<open>disconnect\<close> goes back to \<open>_try_next_port\<close>. \<open>start\<close> is
  \<open>BlockingIdentifier.start\<close> or \<open>SimpleIdentifier.start\<close>, by the class of the
  manager's identifier; \<open>reply\<close> stands for \<open>waitForReadyRead\<close> followed by
  \<open>readAll\<close>. Whether \<open>open()\<close> returns true is decided before its callbacks run, so the
  loop goes on after a failed \<open>open()\<close> whatever they have done.
\<close>

function try_loop :: "env \<Rightarrow> manager \<Rightarrow> manager"
  and on_error :: "env \<Rightarrow> SerialPortError \<Rightarrow> manager \<Rightarrow> manager"
  and identify_device :: "env \<Rightarrow> manager \<Rightarrow> manager"
  and start :: "env \<Rightarrow> manager \<Rightarrow> manager"
  and emit_failed :: "env \<Rightarrow> nat \<Rightarrow> nat \<Rightarrow> manager \<Rightarrow> manager"
  and disconnect :: "env \<Rightarrow> manager \<Rightarrow> manager"
  and try_next_port :: "env \<Rightarrow> manager \<Rightarrow> manager"
where
  "try_loop e s =
     (case available_ports s of
        [] \<Rightarrow> s
      | port_info # rest \<Rightarrow>
          (let s1 = s\<lparr>available_ports := rest\<rparr> in
           if \<not> port_matches_filters s1 port_info then try_loop e s1
           else let s2 = s1\<lparr>serial_port := port_info\<rparr> in
             if serial_open s2
             then (let s3 = on_error e OpenError (set_error e OpenError s2)
                   in try_loop e (emit (error_occurred (error_string s3)) s3))
             else let s3 = set_error e NoError s2 in
               if open_outcome e port_info \<noteq> NoError
               then (let s4 = on_error e (open_outcome e port_info)
                                (set_error e (open_outcome e port_info) s3)
                     in try_loop e (emit (error_occurred (error_string s4)) s4))
               else identify_device e (s3\<lparr>serial_open := True\<rparr>)))"
| "on_error e error s =
     (if error \<noteq> NoError
      then let error_message = error_string s;
               error_message = (if state s = IDENTIFYING
                                then ''Identification failed: '' @ error_message
                                else error_message)
           in emit (error_occurred error_message) (disconnect e s)
      else s)"
| "identify_device e s =
     start e (s\<lparr>state := IDENTIFYING,
                ready_read_conns := 0,
                identified_conns := Suc (identified_conns s),
                failed_conns := Suc (failed_conns s)\<rparr>)"
| "start e s =
     (case kind s of
        BlockingIdentifier \<Rightarrow>
          (let s1 = s\<lparr>starts := Suc (starts s), written := written s @ [id_command s]\<rparr> in
           case reply e (serial_port s1) (timeout_ms s1) of
             Some data \<Rightarrow>
               if strip data = expected_response s1
               then deliver_identified (signal identified s1)
               else emit_failed e (removals s1) (failed_conns s1) (signal failed s1)
           | None \<Rightarrow>
               (let s2 = on_error e TimeoutError (set_error e TimeoutError s1)
                in emit_failed e (removals s2) (failed_conns s2) (signal failed s2)))
      | SimpleIdentifier \<Rightarrow>
          s\<lparr>starts := Suc (starts s),
            restarts := (if timer_active s then Suc (restarts s) else restarts s),
            written := written s @ [id_command s],
            timer_active := True, ident_ready_read := True\<rparr>)"
| "emit_failed e ep 0 s = s"
| "emit_failed e ep (Suc n) s =
     (if removals s \<noteq> ep then s else emit_failed e ep n (disconnect e s))"
| "disconnect e s =
     (let s1 = (if serial_open s then s\<lparr>serial_open := False\<rparr> else s);
          previous_state = state s1;
          s2 = s1\<lparr>state := DISCONNECTED\<rparr>
      in if previous_state \<noteq> IDENTIFYING
         then try_next_port e (emit disconnected s2)
         else s2)"
| "try_next_port e s =
     (if serial_open s \<or> state s \<noteq> DISCONNECTED then s else try_loop e s)"
  by pat_completeness auto

text \<open>
  Every round of the loop takes a port off the queue and nothing puts one back, so the
  calls end: the measure is the length of the queue, then the position in the call chain,
  then the connections still to serve.
\<close>

termination try_loop
proof -
  have ident: "length (available_ports (deliver_identified t)) \<le> length (available_ports t)"
    for t
    by (simp add: deliver_identified_def on_identified_def emit_def)
  have shrink:
    "try_loop_on_error_identify_device_start_emit_failed_disconnect_try_next_port_dom
        (Inl (Inl (e, s)))
       \<Longrightarrow> length (available_ports (try_loop e s)) \<le> length (available_ports s)"
    "try_loop_on_error_identify_device_start_emit_failed_disconnect_try_next_port_dom
        (Inl (Inr (Inl (e, err, s))))
       \<Longrightarrow> length (available_ports (on_error e err s)) \<le> length (available_ports s)"
    "try_loop_on_error_identify_device_start_emit_failed_disconnect_try_next_port_dom
        (Inl (Inr (Inr (e, s))))
       \<Longrightarrow> length (available_ports (identify_device e s)) \<le> length (available_ports s)"
    "try_loop_on_error_identify_device_start_emit_failed_disconnect_try_next_port_dom
        (Inr (Inl (Inl (e, s))))
       \<Longrightarrow> length (available_ports (start e s)) \<le> length (available_ports s)"
    "try_loop_on_error_identify_device_start_emit_failed_disconnect_try_next_port_dom
        (Inr (Inl (Inr (e, ep, n, s))))
       \<Longrightarrow> length (available_ports (emit_failed e ep n s)) \<le> length (available_ports s)"
    "try_loop_on_error_identify_device_start_emit_failed_disconnect_try_next_port_dom
        (Inr (Inr (Inl (e, s))))
       \<Longrightarrow> length (available_ports (disconnect e s)) \<le> length (available_ports s)"
    "try_loop_on_error_identify_device_start_emit_failed_disconnect_try_next_port_dom
        (Inr (Inr (Inr (e, s))))
       \<Longrightarrow> length (available_ports (try_next_port e s)) \<le> length (available_ports s)"
    for e s err ep n
  proof (induct rule:
      try_loop_on_error_identify_device_start_emit_failed_disconnect_try_next_port.pinduct)
    case (1 e s)
    show ?case
    proof (cases "available_ports s")
      case Nil
      with 1(1) show ?thesis by (simp add: try_loop.psimps)
    next
      case (Cons p ps)
      let ?s1 = "s\<lparr>available_ports := ps\<rparr>"
      let ?s2 = "?s1\<lparr>serial_port := p\<rparr>"
      show ?thesis
      proof (cases "port_matches_filters ?s1 p")
        case False
        with 1(1) Cons 1(2) [OF Cons refl False] show ?thesis
          by (simp add: try_loop.psimps)
      next
        case match: True
        show ?thesis
        proof (cases "serial_open ?s2")
          case True
          let ?s3 = "on_error e OpenError (set_error e OpenError ?s2)"
          from 1(3) [OF Cons refl] match True
          have a: "length (available_ports ?s3) \<le> length ps"
            by (simp add: set_error_def)
          from 1(4) [OF Cons refl _ refl _ refl] match True
          have "length (available_ports (try_loop e (emit (error_occurred (error_string ?s3)) ?s3)))
                  \<le> length (available_ports ?s3)"
            by (simp add: emit_def)
          with a 1(1) Cons match True show ?thesis
            by (simp add: try_loop.psimps Let_def)
        next
          case False
          let ?s3 = "set_error e NoError ?s2"
          show ?thesis
          proof (cases "open_outcome e p = NoError")
            case True
            from 1(7) [OF Cons refl _ refl _ refl] match False True
            have "length (available_ports (identify_device e (?s3\<lparr>serial_open := True\<rparr>)))
                    \<le> length ps"
              by (simp add: set_error_def)
            with 1(1) Cons match False True show ?thesis
              by (simp add: try_loop.psimps Let_def)
          next
            case fails: False
            let ?s4 = "on_error e (open_outcome e p) (set_error e (open_outcome e p) ?s3)"
            from 1(5) [OF Cons refl _ refl _ refl] match False fails
            have a: "length (available_ports ?s4) \<le> length ps"
              by (simp add: set_error_def)
            from 1(6) [OF Cons refl _ refl _ refl _ refl] match False fails
            have "length (available_ports
                     (try_loop e (emit (error_occurred (error_string ?s4)) ?s4)))
                    \<le> length (available_ports ?s4)"
              by (simp add: emit_def)
            with a 1(1) Cons match False fails show ?thesis
              by (simp add: try_loop.psimps Let_def)
          qed
        qed
      qed
    qed
  next
    case (2 e error s)
    then show ?case by (simp add: on_error.psimps Let_def emit_def)
  next
    case (3 e s)
    then show ?case by (simp add: identify_device.psimps)
  next
    case (4 e s)
    show ?case
    proof (cases "kind s")
      case SimpleIdentifier
      with 4(1) show ?thesis by (simp add: start.psimps)
    next
      case BlockingIdentifier
      let ?s1 = "s\<lparr>starts := Suc (starts s), written := written s @ [id_command s]\<rparr>"
      show ?thesis
      proof (cases "reply e (serial_port ?s1) (timeout_ms ?s1)")
        case (Some data)
        show ?thesis
        proof (cases "strip data = expected_response ?s1")
          case True
          with 4(1) BlockingIdentifier Some ident [of "signal identified ?s1"] show ?thesis
            by (simp add: start.psimps signal_def)
        next
          case False
          from 4(4) [OF BlockingIdentifier refl Some False]
          have "length (available_ports
                  (emit_failed e (removals ?s1) (failed_conns ?s1) (signal failed ?s1)))
                \<le> length (available_ports s)"
            by (simp add: signal_def)
          with 4(1) BlockingIdentifier Some False show ?thesis
            by (simp add: start.psimps)
        qed
      next
        case None
        let ?s2 = "on_error e TimeoutError (set_error e TimeoutError ?s1)"
        from 4(2) [OF BlockingIdentifier refl None]
        have a: "length (available_ports ?s2) \<le> length (available_ports s)"
          by (simp add: set_error_def)
        from 4(3) [OF BlockingIdentifier refl None refl]
        have "length (available_ports
                (emit_failed e (removals ?s2) (failed_conns ?s2) (signal failed ?s2)))
              \<le> length (available_ports ?s2)"
          by (simp add: signal_def)
        with a 4(1) BlockingIdentifier None show ?thesis
          by (simp add: start.psimps Let_def)
      qed
    qed
  next
    case (5 e ep s)
    then show ?case by (simp add: emit_failed.psimps)
  next
    case (6 e ep n s)
    then show ?case by (auto simp: emit_failed.psimps)
  next
    case (7 e s)
    then show ?case
      by (auto simp: disconnect.psimps Let_def emit_def split: if_splits)
  next
    case (8 e s)
    then show ?case by (simp add: try_next_port.psimps)
  qed
  show ?thesis
    apply (relation "inv_image (measure id <*lex*> measure id <*lex*> measure id)
     (\<lambda>x. case x of
        Inl (Inl (e, s)) \<Rightarrow> (length (available_ports s), 0::nat, 0::nat)
      | Inl (Inr (Inl (e, err, s))) \<Rightarrow> (length (available_ports s), 3, 0)
      | Inl (Inr (Inr (e, s))) \<Rightarrow> (length (available_ports s), 6, 0)
      | Inr (Inl (Inl (e, s))) \<Rightarrow> (length (available_ports s), 5, 0)
      | Inr (Inl (Inr (e, ep, n, s))) \<Rightarrow> (length (available_ports s), 4, n)
      | Inr (Inr (Inl (e, s))) \<Rightarrow> (length (available_ports s), 2, 0)
      | Inr (Inr (Inr (e, s))) \<Rightarrow> (length (available_ports s), 1, 0))")
                 apply (intro wf_inv_image wf_lex_prod wf_measure)
                apply (simp_all add: emit_def signal_def set_error_def)
       apply (auto dest!: shrink(2) shrink(6) simp: order_le_less)
    done
qed

text \<open>\<open>failed.emit()\<close> without the record in \<open>signals\<close>: the connected slots run.\<close>

definition deliver_failed :: "env \<Rightarrow> manager \<Rightarrow> manager" where
  "deliver_failed e s = emit_failed e (removals s) (failed_conns s) s"

text \<open>
  \<open>SerialManager.auto_connect\<close>; \<open>ports\<close> is what \<open>QSerialPortInfo.availablePorts()\<close>
  lists at the call.
\<close>

definition auto_connect ::
  "env \<Rightarrow> int option \<Rightarrow> int option \<Rightarrow> port_info list \<Rightarrow> manager \<Rightarrow> manager" where
  "auto_connect e v p ports s =
     try_next_port e
       (s\<lparr>vid := v, pid := p, available_ports := ports,
          port_added_conns := Suc (port_added_conns s)\<rparr>)"

definition send :: "bytes \<Rightarrow> manager \<Rightarrow> manager" where
  "send data s = (if serial_open s then s\<lparr>written := written s @ [data]\<rparr> else s)"

definition is_connected :: "manager \<Rightarrow> bool" where
  "is_connected s = (state s = CONNECTED)"

definition handle_port_removed :: "env \<Rightarrow> port_info \<Rightarrow> manager \<Rightarrow> manager" where
  "handle_port_removed e port_info s =
     (if serial_open s \<and> portName (serial_port s) = portName port_info
      then disconnect e s
      else s\<lparr>available_ports :=
               filter (\<lambda>p. portName p \<noteq> portName port_info) (available_ports s)\<rparr>)"

definition on_port_added :: "env \<Rightarrow> port_info \<Rightarrow> manager \<Rightarrow> manager" where
  "on_port_added e port_info s =
     (let s1 = s\<lparr>available_ports := available_ports s @ [port_info]\<rparr>
      in if state s1 = DISCONNECTED \<and> length (available_ports s1) = 1
         then try_next_port e s1
         else s1)"

text \<open>\<open>SerialManager._on_ready_read\<close>; \<open>data\<close> is what \<open>readAll()\<close> returns.\<close>

definition on_ready_read :: "bytes \<Rightarrow> manager \<Rightarrow> manager" where
  "on_ready_read data s = emit (data_received data) s"

subsection \<open>The non-blocking identifier\<close>

text \<open>\<open>SimpleIdentifier._on_ready_read\<close> and \<open>SimpleIdentifier._on_timeout\<close>.\<close>

definition ident_on_ready_read :: "env \<Rightarrow> bytes \<Rightarrow> manager \<Rightarrow> manager" where
  "ident_on_ready_read e data s =
     (let s1 = s\<lparr>timer_active := False, ident_ready_read := False\<rparr>
      in if strip data = expected_response s1
         then deliver_identified (signal identified s1)
         else deliver_failed e (signal failed s1))"

definition ident_on_timeout :: "env \<Rightarrow> manager \<Rightarrow> manager" where
  "ident_on_timeout e s = deliver_failed e (signal failed (s\<lparr>ident_ready_read := False\<rparr>))"

subsection \<open>Notifications\<close>

text \<open>
  The port's data-ready signal with \<open>data\<close> waiting: the manager's connections are served
  first (they are the older ones), and \<open>readAll()\<close> leaves nothing for the next slot.
\<close>

fun serve_ready_read :: "nat \<Rightarrow> bytes \<Rightarrow> manager \<Rightarrow> manager" where
  "serve_ready_read 0 data s = s"
| "serve_ready_read (Suc n) data s = serve_ready_read n [] (on_ready_read data s)"

definition ready_read :: "env \<Rightarrow> bytes \<Rightarrow> manager \<Rightarrow> manager" where
  "ready_read e data s =
     (if serial_open s
      then let n = ready_read_conns s;
               listening = ident_ready_read s;
               s1 = serve_ready_read n data s
           in if listening then ident_on_ready_read e (if n = 0 then data else []) s1 else s1
      else s)"

text \<open>The identifier's timer is single-shot: firing leaves it inactive.\<close>

definition timer_timeout :: "env \<Rightarrow> manager \<Rightarrow> manager" where
  "timer_timeout e s =
     (if timer_active s then ident_on_timeout e (s\<lparr>timer_active := False\<rparr>) else s)"

text \<open>
  What can happen to a manager: a call of its public interface, or a notification from
  the port monitor, the port or the identifier's timer. \<open>PortMonitor.port_added\<close> runs
  \<open>_on_port_added\<close> once per connection made by \<open>auto_connect\<close>; \<open>TransportError\<close> is an
  error the port reports on its own, outside any call of the manager.
\<close>

datatype operation =
    AutoConnect "int option" "int option" "port_info list"
  | Disconnect
  | Send bytes
  | PortAdded port_info
  | PortRemoved port_info
  | TransportError SerialPortError
  | ReadyRead bytes
  | Timeout

fun step :: "env \<Rightarrow> operation \<Rightarrow> manager \<Rightarrow> manager" where
  "step e (AutoConnect v p ports) s = auto_connect e v p ports s"
| "step e Disconnect s = disconnect e s"
| "step e (Send data) s = send data s"
| "step e (PortAdded port_info) s = (on_port_added e port_info ^^ port_added_conns s) s"
| "step e (PortRemoved port_info) s = handle_port_removed e port_info s"
| "step e (TransportError error) s = on_error e error (set_error e error s)"
| "step e (ReadyRead data) s = ready_read e data s"
| "step e Timeout s = timer_timeout e s"

fun run :: "(env \<times> operation) list \<Rightarrow> manager \<Rightarrow> manager" where
  "run [] s = s"
| "run ((e, op) # rest) s = run rest (step e op s)"

text \<open>The coupling of state and transport.\<close>

definition coupled :: "manager \<Rightarrow> bool" where
  "coupled s = (serial_open s = (state s = IDENTIFYING \<or> state s = CONNECTED))"

text \<open>What a call has added to the identifier's signals and to the bytes written.\<close>

definition extends :: "manager \<Rightarrow> manager \<Rightarrow> bool" where
  "extends s t =
     ((\<exists>sgs. signals t = signals s @ sgs) \<and> (\<exists>ws. written t = written s @ ws))"

text \<open>
  The attempts of the identifier that are still to be answered: one while the timer
  runs. A call keeps the account when every \<open>start\<close> it makes is matched by a signal, by a
  restart of the running timer or by an attempt still to be answered; the loop of a
  manager with a blocking identifier leaves timer and restarts alone, and the loop of a
  manager with a non-blocking one signals nothing.
\<close>

definition pending :: "manager \<Rightarrow> nat" where
  "pending s = (if timer_active s then 1 else 0)"

definition keeps_account :: "manager \<Rightarrow> manager \<Rightarrow> bool" where
  "keeps_account s t =
     (kind t = kind s \<and>
      (ident_ready_read s = timer_active s \<longrightarrow> ident_ready_read t = timer_active t) \<and>
      starts t + length (signals s) + restarts s + pending s =
        starts s + length (signals t) + restarts t + pending t \<and>
      (kind s = BlockingIdentifier \<longrightarrow>
         timer_active t = timer_active s \<and> ident_ready_read t = ident_ready_read s \<and>
         restarts t = restarts s) \<and>
      (kind s = SimpleIdentifier \<longrightarrow> signals t = signals s))"

text \<open>
  The account is in order: the identifier's data-ready slot is connected exactly while its
  timer runs, every \<open>start\<close> is matched, and a blocking identifier has no timer to run.
\<close>

definition accounted :: "manager \<Rightarrow> bool" where
  "accounted s =
     (ident_ready_read s = timer_active s \<and>
      starts s = length (signals s) + restarts s + pending s \<and>
      (kind s = BlockingIdentifier \<longrightarrow> \<not> timer_active s \<and> restarts s = 0))"

subsection \<open>Scenarios\<close>

text \<open>
  Two ports without vendor or product identifier, and a world given by the error with
  which a port of a name fails to open (\<open>NoError\<close>: it opens) and by what a blocking
  wait reads on it (\<open>None\<close>: the timeout passes with nothing to read). In \<open>answering r\<close>
  every port opens and answers \<open>r\<close>.
\<close>

definition COM1 :: port_info where
  "COM1 = \<lparr>portName = ''COM1'', vendorIdentifier = None, productIdentifier = None\<rparr>"

definition COM2 :: port_info where
  "COM2 = \<lparr>portName = ''COM2'', vendorIdentifier = None, productIdentifier = None\<rparr>"

fun error_text :: "SerialPortError \<Rightarrow> string" where
  "error_text NoError = ''No error''"
| "error_text OpenError = ''Device is already open''"
| "error_text TimeoutError = ''Operation timed out''"
| "error_text PermissionError = ''Access denied''"
| "error_text DeviceNotFoundError = ''No such device''"
| "error_text ResourceError = ''Device disconnected''"
| "error_text UnknownError = ''Unknown error''"

definition world :: "(string \<Rightarrow> SerialPortError) \<Rightarrow> (string \<Rightarrow> bytes option) \<Rightarrow> env" where
  "world failure answer =
     \<lparr>open_outcome = (\<lambda>p. failure (portName p)),
      errorString = (\<lambda>error _. error_text error),
      reply = (\<lambda>p _. answer (portName p))\<rparr>"

definition answering :: "bytes option \<Rightarrow> env" where
  "answering r = world (\<lambda>_. NoError) (\<lambda>_. r)"

text \<open>
  A world in which \<open>COM1\<close> stays silent and \<open>COM2\<close> answers \<open>OK\<close>, one in which only
  the fourth of four ports answers \<open>OK\<close>, and one in which \<open>COM1\<close> cannot be opened.
\<close>

definition COM1_silent :: env where
  "COM1_silent = world (\<lambda>_. NoError) (\<lambda>name. if name = ''COM1'' then None else Some ''OK'')"

definition COM3 :: port_info where
  "COM3 = \<lparr>portName = ''COM3'', vendorIdentifier = None, productIdentifier = None\<rparr>"

definition COM4 :: port_info where
  "COM4 = \<lparr>portName = ''COM4'', vendorIdentifier = None, productIdentifier = None\<rparr>"

definition COM4_accepted :: env where
  "COM4_accepted =
     world (\<lambda>_. NoError) (\<lambda>name. if name = ''COM4'' then Some ''OK'' else Some ''NO'')"

definition COM1_locked :: env where
  "COM1_locked =
     world (\<lambda>name. if name = ''COM1'' then PermissionError else NoError) (\<lambda>_. Some ''OK'')"

text \<open>
  A manager with a blocking identifier that expects \<open>OK\<close>, after \<open>auto_connect()\<close> with
  both ports present: the device answering \<open>NO\<close>; \<open>COM1\<close> silent; \<open>COM1\<close> locked.
\<close>

definition first_candidate_rejected :: manager where
  "first_candidate_rejected =
     auto_connect (answering (Some ''NO'')) None None [COM1, COM2]
       (initial BlockingIdentifier ''ID?'' ''OK'' 500)"

definition first_candidate_silent :: manager where
  "first_candidate_silent =
     auto_connect COM1_silent None None [COM1, COM2]
       (initial BlockingIdentifier ''ID?'' ''OK'' 500)"

definition first_candidate_locked :: manager where
  "first_candidate_locked =
     auto_connect COM1_locked None None [COM1, COM2]
       (initial BlockingIdentifier ''ID?'' ''OK'' 500)"

text \<open>The same manager with \<open>COM1\<close> alone, the device answering \<open>OK\<close> after a space.\<close>

definition answered_after_space :: manager where
  "answered_after_space =
     auto_connect (answering (Some '' OK'')) None None [COM1]
       (initial BlockingIdentifier ''ID?'' ''OK'' 500)"

text \<open>
  A manager with a blocking identifier, connected on \<open>COM1\<close>; then \<open>COM2\<close> is plugged in;
  or else \<open>disconnect()\<close> is called twice; or else \<open>auto_connect()\<close> is called again, with
  no filter and no port present.
\<close>

definition connected_blocking :: manager where
  "connected_blocking =
     run [(answering (Some ''OK''), AutoConnect None None [COM1])]
       (initial BlockingIdentifier ''ID?'' ''OK'' 500)"

definition connected_then_port_added :: manager where
  "connected_then_port_added = step (answering (Some ''OK'')) (PortAdded COM2) connected_blocking"

definition disconnected_twice :: manager where
  "disconnected_twice =
     run [(answering (Some ''OK''), Disconnect), (answering (Some ''OK''), Disconnect)]
       connected_blocking"

definition connected_again :: manager where
  "connected_again = auto_connect (answering (Some ''OK'')) None None [] connected_blocking"

text \<open>
  A manager with a non-blocking identifier: the attempt on \<open>COM1\<close> in flight with \<open>COM2\<close>
  queued; the attempt on \<open>COM1\<close> preempted by \<open>disconnect()\<close>, or timed out, or preempted
  and followed by an attempt on \<open>COM2\<close>, plugged in before the timer fires; and the manager
  connected on \<open>COM1\<close>, then \<open>COM2\<close> plugged in, then \<open>COM1\<close> unplugged.
\<close>

definition attempt_in_flight :: manager where
  "attempt_in_flight =
     auto_connect (answering None) None None [COM1, COM2]
       (initial SimpleIdentifier ''ID?'' ''OK'' 500)"

definition lone_attempt_in_flight :: manager where
  "lone_attempt_in_flight =
     auto_connect (answering None) None None [COM1]
       (initial SimpleIdentifier ''ID?'' ''OK'' 500)"

definition attempt_preempted :: manager where
  "attempt_preempted = step (answering None) Disconnect lone_attempt_in_flight"

definition attempt_timed_out :: manager where
  "attempt_timed_out =
     run [(answering None, AutoConnect None None [COM1]), (answering None, Timeout)]
       (initial SimpleIdentifier ''ID?'' ''OK'' 500)"

definition attempt_restarted :: manager where
  "attempt_restarted =
     run [(answering None, AutoConnect None None [COM1]), (answering None, Disconnect),
          (answering None, PortAdded COM2)]
       (initial SimpleIdentifier ''ID?'' ''OK'' 500)"

definition connected_simple :: manager where
  "connected_simple =
     run [(answering None, AutoConnect None None [COM1]), (answering None, ReadyRead ''OK'')]
       (initial SimpleIdentifier ''ID?'' ''OK'' 500)"

definition active_port_removed :: manager where
  "active_port_removed =
     run [(answering None, PortAdded COM2), (answering None, PortRemoved COM1)]
       connected_simple"

text \<open>
  A blocking identifier about to be started on \<open>COM1\<close>, as \<open>_identify_device\<close> leaves it,
  with no candidate queued and with \<open>COM2\<close> queued.
\<close>

definition blocking_about_to_start :: manager where
  "blocking_about_to_start =
     (initial BlockingIdentifier ''ID?'' ''OK'' 500)
       \<lparr>serial_open := True, serial_port := COM1, state := IDENTIFYING,
        ready_read_conns := 0, identified_conns := 1, failed_conns := 1\<rparr>"

definition blocking_about_to_start_COM2_queued :: manager where
  "blocking_about_to_start_COM2_queued = blocking_about_to_start\<lparr>available_ports := [COM2]\<rparr>"

section \<open>Properties\<close>

lemmas manager_loop_simps =
  try_loop.simps on_error.simps identify_device.simps start.simps disconnect.simps
  try_next_port.simps

declare manager_loop_simps [simp del]

lemmas eval_simps =
  COM1_def COM2_def answering_def world_def initial_def auto_connect_def manager_loop_simps
  port_matches_filters_def deliver_identified_def deliver_failed_def signal_def emit_def
  set_error_def strip_def is_space_def on_identified_def send_def handle_port_removed_def
  on_port_added_def on_ready_read_def ident_on_ready_read_def ident_on_timeout_def
  ready_read_def timer_timeout_def Let_def

subsection \<open>Fields that a record of a signal leaves alone\<close>

lemma signal_fields [simp]:
  "serial_open (signal sg s) = serial_open s"
  "serial_port (signal sg s) = serial_port s"
  "state (signal sg s) = state s"
  "available_ports (signal sg s) = available_ports s"
  "events (signal sg s) = events s"
  "written (signal sg s) = written s"
  "failed_conns (signal sg s) = failed_conns s"
  "identified_conns (signal sg s) = identified_conns s"
  "removals (signal sg s) = removals s"
  "timer_active (signal sg s) = timer_active s"
  "ident_ready_read (signal sg s) = ident_ready_read s"
  "kind (signal sg s) = kind s"
  "starts (signal sg s) = starts s"
  "restarts (signal sg s) = restarts s"
  "signals (signal sg s) = signals s @ [sg]"
  by (simp_all add: signal_def)

lemma emit_fields [simp]:
  "serial_open (emit ev s) = serial_open s"
  "serial_port (emit ev s) = serial_port s"
  "state (emit ev s) = state s"
  "available_ports (emit ev s) = available_ports s"
  "events (emit ev s) = events s @ [ev]"
  "written (emit ev s) = written s"
  "failed_conns (emit ev s) = failed_conns s"
  "identified_conns (emit ev s) = identified_conns s"
  "removals (emit ev s) = removals s"
  "timer_active (emit ev s) = timer_active s"
  "ident_ready_read (emit ev s) = ident_ready_read s"
  "kind (emit ev s) = kind s"
  "starts (emit ev s) = starts s"
  "restarts (emit ev s) = restarts s"
  "signals (emit ev s) = signals s"
  by (simp_all add: emit_def)

lemma close_transport:
  "(if serial_open s then s\<lparr>serial_open := False\<rparr> else s) = s\<lparr>serial_open := False\<rparr>"
  by (cases s) simp

subsection \<open>One call of \<open>disconnect\<close>\<close>

lemma disconnect_identifying:
  "state s = IDENTIFYING \<Longrightarrow>
     disconnect e s = s\<lparr>serial_open := False, state := DISCONNECTED\<rparr>"
  by (simp add: disconnect.simps Let_def close_transport)

lemma try_next_port_idle: "available_ports s = [] \<Longrightarrow> try_next_port e s = s"
  by (simp add: try_next_port.simps try_loop.simps)

lemma disconnect_no_candidates:
  "available_ports s = [] \<Longrightarrow> state s \<noteq> IDENTIFYING \<Longrightarrow>
     disconnect e s = emit disconnected (s\<lparr>serial_open := False, state := DISCONNECTED\<rparr>)"
  by (simp add: disconnect.simps Let_def try_next_port_idle close_transport)

subsection \<open>The data-ready signal\<close>

lemma serve_ready_read_events: "\<exists>evs. serve_ready_read n data s = s\<lparr>events := evs\<rparr>"
proof (induction n arbitrary: data s)
  case 0
  have "s = s\<lparr>events := events s\<rparr>" by simp
  then show ?case by (metis serve_ready_read.simps(1))
next
  case (Suc n)
  from Suc [of "[]" "on_ready_read data s"] obtain evs where
    "serve_ready_read n [] (on_ready_read data s) = (on_ready_read data s)\<lparr>events := evs\<rparr>" ..
  then show ?case by (auto simp: on_ready_read_def emit_def)
qed

subsection \<open>What holds from a call to its return\<close>

text \<open>
  A relation between managers that is reflexive and transitive and holds across every
  assignment of the loop holds from the state a function of the loop is called on to the
  state it returns. The blocking \<open>start\<close> counts the call before anything else and
  signals after the timeout has been reported, so the two go together.
\<close>

lemma loop_relates:
  fixes R :: "manager \<Rightarrow> manager \<Rightarrow> bool"
  assumes "reflp R" and "transp R"
    and queue: "\<And>s ps. R s (s\<lparr>available_ports := ps\<rparr>)"
    and port: "\<And>s p. R s (s\<lparr>serial_port := p\<rparr>)"
    and error: "\<And>s m. R s (s\<lparr>error_string := m\<rparr>)"
    and opened: "\<And>s b. R s (s\<lparr>serial_open := b\<rparr>)"
    and state: "\<And>s st. R s (s\<lparr>state := st\<rparr>)"
    and event: "\<And>s ev. R s (emit ev s)"
    and conns: "\<And>s a b c. R s (s\<lparr>state := IDENTIFYING, ready_read_conns := a,
                                  identified_conns := b, failed_conns := c\<rparr>)"
    and success: "\<And>s. R s (on_identified s)"
    and blocking: "\<And>s t sg. kind s = BlockingIdentifier \<Longrightarrow>
        R (s\<lparr>starts := Suc (starts s), written := written s @ [id_command s]\<rparr>) t \<Longrightarrow>
        R s (signal sg t)"
    and simple: "\<And>s. kind s = SimpleIdentifier \<Longrightarrow>
        R s (s\<lparr>starts := Suc (starts s),
               restarts := (if timer_active s then Suc (restarts s) else restarts s),
               written := written s @ [id_command s],
               timer_active := True, ident_ready_read := True\<rparr>)"
  shows "R s (try_loop e s)"
    and "R s (on_error e err s)"
    and "R s (identify_device e s)"
    and "R s (start e s)"
    and "R s (emit_failed e ep n s)"
    and "R s (disconnect e s)"
    and "R s (try_next_port e s)"
proof -
  have same: "R s s" for s
    using \<open>reflp R\<close> by (rule reflpD)
  have chain: "R s t \<Longrightarrow> R t u \<Longrightarrow> R s u" for s t u
    using \<open>transp R\<close> by (rule transpD)
  show "R s (try_loop e s)"
    and "R s (on_error e err s)"
    and "R s (identify_device e s)"
    and "R s (start e s)"
    and "R s (emit_failed e ep n s)"
    and "R s (disconnect e s)"
    and "R s (try_next_port e s)"
  proof (induct e s and e err s and e s and e s and e ep n s and e s and e s
      rule: try_loop_on_error_identify_device_start_emit_failed_disconnect_try_next_port.induct)
    case (1 e s)
    have reported: "R t (set_error e x t)" for t x
      by (simp add: set_error_def error)
    show ?case
    proof (cases "available_ports s")
      case Nil
      then show ?thesis by (simp add: try_loop.simps [of e s] same)
    next
      case (Cons p ps)
      let ?s1 = "s\<lparr>available_ports := ps\<rparr>"
      let ?s2 = "?s1\<lparr>serial_port := p\<rparr>"
      have r1: "R s ?s1" by (rule queue)
      have r2: "R s ?s2" using r1 port by (rule chain)
      show ?thesis
      proof (cases "port_matches_filters ?s1 p")
        case False
        from 1(1) [OF Cons refl False] have "R ?s1 (try_loop e ?s1)" .
        with r1 have "R s (try_loop e ?s1)" by (rule chain)
        with Cons False show ?thesis by (simp add: try_loop.simps [of e s])
      next
        case True
        then have m: "\<not> \<not> port_matches_filters ?s1 p" by simp
        show ?thesis
        proof (cases "serial_open ?s2")
          case isopen: True
          let ?a = "set_error e OpenError ?s2"
          let ?b = "on_error e OpenError ?a"
          let ?c = "emit (error_occurred (error_string ?b)) ?b"
          have "R ?s2 ?a" by (rule reported)
          moreover have "R ?a ?b" using 1(2) [OF Cons refl m refl isopen] .
          moreover have "R ?b ?c" by (rule event)
          moreover have "R ?c (try_loop e ?c)" using 1(3) [OF Cons refl m refl isopen refl] .
          ultimately have "R s (try_loop e ?c)" using r2 chain by blast
          with Cons True isopen show ?thesis by (simp add: try_loop.simps [of e s] Let_def)
        next
          case closed: False
          let ?s3 = "set_error e NoError ?s2"
          have "R ?s2 ?s3" by (rule reported)
          with r2 have r3: "R s ?s3" by (rule chain)
          show ?thesis
          proof (cases "open_outcome e p = NoError")
            case fails: False
            let ?a = "set_error e (open_outcome e p) ?s3"
            let ?b = "on_error e (open_outcome e p) ?a"
            let ?c = "emit (error_occurred (error_string ?b)) ?b"
            have "R ?s3 ?a" by (rule reported)
            moreover have "R ?a ?b" using 1(4) [OF Cons refl m refl closed refl fails] .
            moreover have "R ?b ?c" by (rule event)
            moreover have "R ?c (try_loop e ?c)"
              using 1(5) [OF Cons refl m refl closed refl fails refl] .
            ultimately have "R s (try_loop e ?c)" using r3 chain by blast
            with Cons True closed fails show ?thesis by (simp add: try_loop.simps [of e s] Let_def)
          next
            case opens: True
            then have o: "\<not> open_outcome e p \<noteq> NoError" by simp
            let ?s4 = "?s3\<lparr>serial_open := True\<rparr>"
            have "R ?s3 ?s4" by (rule opened)
            moreover have "R ?s4 (identify_device e ?s4)"
              using 1(6) [OF Cons refl m refl closed refl o] .
            ultimately have "R s (identify_device e ?s4)" using r3 chain by blast
            with Cons True closed opens show ?thesis by (simp add: try_loop.simps [of e s] Let_def)
          qed
        qed
      qed
    qed
  next
    case (2 e err s)
    show ?case
    proof (cases "err = NoError")
      case True
      then show ?thesis by (simp add: on_error.simps same)
    next
      case False
      from 2 [OF False refl refl] have "R s (disconnect e s)" .
      then have "R s (emit (error_occurred msg) (disconnect e s))" for msg
        using event chain by blast
      with False show ?thesis by (simp add: on_error.simps Let_def)
    qed
  next
    case (3 e s)
    let ?t = "s\<lparr>state := IDENTIFYING, ready_read_conns := 0,
                 identified_conns := Suc (identified_conns s),
                 failed_conns := Suc (failed_conns s)\<rparr>"
    have "R s ?t" by (rule conns)
    then have "R s (start e ?t)" using 3 by (rule chain)
    then show ?case by (simp add: identify_device.simps [of e s])
  next
    case (4 e s)
    show ?case
    proof (cases "kind s")
      case BlockingIdentifier
      let ?s1 = "s\<lparr>starts := Suc (starts s), written := written s @ [id_command s]\<rparr>"
      show ?thesis
      proof (cases "reply e (serial_port ?s1) (timeout_ms ?s1)")
        case None
        let ?a = "set_error e TimeoutError ?s1"
        let ?s2 = "on_error e TimeoutError ?a"
        have "R ?s1 ?a" by (simp add: set_error_def [of e TimeoutError ?s1] error)
        moreover have "R ?a ?s2" using 4(1) [OF BlockingIdentifier refl None] .
        ultimately have "R ?s1 ?s2" by (rule chain)
        with BlockingIdentifier have "R s (signal failed ?s2)" by (rule blocking)
        moreover have "R (signal failed ?s2)
            (emit_failed e (removals ?s2) (failed_conns ?s2) (signal failed ?s2))"
          using 4(2) [OF BlockingIdentifier refl None refl] .
        ultimately have
          "R s (emit_failed e (removals ?s2) (failed_conns ?s2) (signal failed ?s2))"
          by (rule chain)
        with BlockingIdentifier None show ?thesis by (simp add: start.simps [of e s] Let_def)
      next
        case (Some data)
        have first: "R s (signal sg ?s1)" for sg
          using BlockingIdentifier same by (rule blocking)
        show ?thesis
        proof (cases "strip data = expected_response ?s1")
          case True
          have "R (signal identified ?s1) (deliver_identified (signal identified ?s1))"
            by (simp add: deliver_identified_def same success)
          with first have "R s (deliver_identified (signal identified ?s1))" by (rule chain)
          with BlockingIdentifier Some True show ?thesis by (simp add: start.simps [of e s])
        next
          case False
          have "R (signal failed ?s1)
              (emit_failed e (removals ?s1) (failed_conns ?s1) (signal failed ?s1))"
            using 4(3) [OF BlockingIdentifier refl Some False] .
          with first have
            "R s (emit_failed e (removals ?s1) (failed_conns ?s1) (signal failed ?s1))"
            by (rule chain)
          with BlockingIdentifier Some False show ?thesis by (simp add: start.simps [of e s])
        qed
      qed
    next
      case SimpleIdentifier
      then show ?thesis using simple [of s] by (simp add: start.simps [of e s])
    qed
  next
    case (5 e ep s)
    show ?case by (simp add: same)
  next
    case (6 e ep n s)
    show ?case
    proof (cases "removals s = ep")
      case True
      then have r: "\<not> removals s \<noteq> ep" by simp
      from 6(1) [OF r] 6(2) [OF r] have "R s (emit_failed e ep n (disconnect e s))"
        by (rule chain)
      with True show ?thesis by simp
    next
      case False
      then show ?thesis by (simp add: same)
    qed
  next
    case (7 e s)
    let ?x = "s\<lparr>serial_open := False\<rparr>"
    let ?xb = "?x\<lparr>state := DISCONNECTED\<rparr>"
    have x: "(if serial_open s then s\<lparr>serial_open := False\<rparr> else s) = ?x"
      by (rule close_transport)
    have rb: "R s ?xb" using opened [of s False] state [of ?x DISCONNECTED] by (rule chain)
    show ?case
    proof (cases "state s = IDENTIFYING")
      case True
      with rb show ?thesis by (simp add: disconnect_identifying)
    next
      case False
      then have ne: "state ?x \<noteq> IDENTIFYING" by simp
      have "R (emit disconnected ?xb) (try_next_port e (emit disconnected ?xb))"
        using 7 [OF x [symmetric] refl refl] ne by (simp add: x)
      moreover have "R ?xb (emit disconnected ?xb)" by (rule event)
      ultimately have "R s (try_next_port e (emit disconnected ?xb))" using rb chain by blast
      with False show ?thesis by (simp add: disconnect.simps [of e s] Let_def x)
    qed
  next
    case (8 e s)
    show ?case
    proof (cases "serial_open s \<or> state s \<noteq> DISCONNECTED")
      case True
      then show ?thesis by (auto simp: try_next_port.simps [of e s] same)
    next
      case False
      from 8 [OF False] False show ?thesis by (simp add: try_next_port.simps [of e s])
    qed
  qed
qed

subsection \<open>The logs only grow\<close>

lemma extends_refl [simp]: "extends s s"
  by (simp add: extends_def)

lemma extends_trans: "extends s t \<Longrightarrow> extends t u \<Longrightarrow> extends s u"
  by (auto simp: extends_def)

lemma extends_order: "reflp extends" "transp extends"
  by (auto intro!: reflpI transpI elim: extends_trans)

lemma extends_loop:
  "extends s (try_loop e s)"
  "extends s (on_error e err s)"
  "extends s (identify_device e s)"
  "extends s (start e s)"
  "extends s (emit_failed e ep n s)"
  "extends s (disconnect e s)"
  "extends s (try_next_port e s)"
proof -
  have grows: "extends s (signal sg t)"
    if "extends (s\<lparr>starts := Suc (starts s), written := written s @ [id_command s]\<rparr>) t"
    for s t sg
    using that by (auto simp: extends_def)
  note rel = loop_relates [where R = extends, OF extends_order _ _ _ _ _ _ _ _ grows]
  show "extends s (try_loop e s)"
    by (rule rel) (simp_all add: extends_def on_identified_def emit_def)
  show "extends s (on_error e err s)"
    by (rule rel) (simp_all add: extends_def on_identified_def emit_def)
  show "extends s (identify_device e s)"
    by (rule rel) (simp_all add: extends_def on_identified_def emit_def)
  show "extends s (start e s)"
    by (rule rel) (simp_all add: extends_def on_identified_def emit_def)
  show "extends s (emit_failed e ep n s)"
    by (rule rel) (simp_all add: extends_def on_identified_def emit_def)
  show "extends s (disconnect e s)"
    by (rule rel) (simp_all add: extends_def on_identified_def emit_def)
  show "extends s (try_next_port e s)"
    by (rule rel) (simp_all add: extends_def on_identified_def emit_def)
qed

subsection \<open>Every start is accounted for\<close>

lemma keeps_account_refl [simp]: "keeps_account s s"
  by (simp add: keeps_account_def)

lemma keeps_account_trans:
  "keeps_account s t \<Longrightarrow> keeps_account t u \<Longrightarrow> keeps_account s u"
  by (auto simp: keeps_account_def)

lemma keeps_account_order: "reflp keeps_account" "transp keeps_account"
  by (auto intro!: reflpI transpI elim: keeps_account_trans)

lemma keeps_account_frame [simp]:
  "keeps_account s (emit ev t) = keeps_account s t"
  "keeps_account s (t\<lparr>vid := a\<rparr>) = keeps_account s t"
  "keeps_account s (t\<lparr>pid := b\<rparr>) = keeps_account s t"
  "keeps_account s (t\<lparr>available_ports := ps\<rparr>) = keeps_account s t"
  "keeps_account s (t\<lparr>port_added_conns := m\<rparr>) = keeps_account s t"
  "keeps_account s (t\<lparr>serial_port := q\<rparr>) = keeps_account s t"
  "keeps_account s (t\<lparr>serial_open := c\<rparr>) = keeps_account s t"
  "keeps_account s (t\<lparr>state := st\<rparr>) = keeps_account s t"
  "keeps_account s (t\<lparr>error_string := msg\<rparr>) = keeps_account s t"
  "keeps_account s (t\<lparr>events := evs\<rparr>) = keeps_account s t"
  "keeps_account s (t\<lparr>written := w\<rparr>) = keeps_account s t"
  by (simp_all add: keeps_account_def emit_def pending_def)

lemma keeps_account_loop:
  "keeps_account s (try_loop e s)"
  "keeps_account s (on_error e err s)"
  "keeps_account s (identify_device e s)"
  "keeps_account s (start e s)"
  "keeps_account s (emit_failed e ep n s)"
  "keeps_account s (disconnect e s)"
  "keeps_account s (try_next_port e s)"
proof -
  have answered: "keeps_account s (signal sg t)"
    if "kind s = BlockingIdentifier"
      "keeps_account (s\<lparr>starts := Suc (starts s), written := written s @ [id_command s]\<rparr>) t"
    for s t sg
    using that by (auto simp: keeps_account_def pending_def)
  have armed: "keeps_account s
      (s\<lparr>starts := Suc (starts s),
         restarts := (if timer_active s then Suc (restarts s) else restarts s),
         written := written s @ [id_command s],
         timer_active := True, ident_ready_read := True\<rparr>)"
    if "kind s = SimpleIdentifier" for s
    using that by (simp add: keeps_account_def pending_def)
  note rel = loop_relates [where R = keeps_account,
      OF keeps_account_order _ _ _ _ _ _ _ _ answered armed]
  show "keeps_account s (try_loop e s)"
    by (rule rel) (simp_all add: keeps_account_def on_identified_def pending_def)
  show "keeps_account s (on_error e err s)"
    by (rule rel) (simp_all add: keeps_account_def on_identified_def pending_def)
  show "keeps_account s (identify_device e s)"
    by (rule rel) (simp_all add: keeps_account_def on_identified_def pending_def)
  show "keeps_account s (start e s)"
    by (rule rel) (simp_all add: keeps_account_def on_identified_def pending_def)
  show "keeps_account s (emit_failed e ep n s)"
    by (rule rel) (simp_all add: keeps_account_def on_identified_def pending_def)
  show "keeps_account s (disconnect e s)"
    by (rule rel) (simp_all add: keeps_account_def on_identified_def pending_def)
  show "keeps_account s (try_next_port e s)"
    by (rule rel) (simp_all add: keeps_account_def on_identified_def pending_def)
qed

subsection \<open>State and transport stay coupled\<close>

lemma coupled_frame [simp]:
  "coupled (emit ev s) = coupled s"
  "coupled (signal sg s) = coupled s"
  "coupled (set_error e err s) = coupled s"
  "coupled (s\<lparr>vid := a\<rparr>) = coupled s"
  "coupled (s\<lparr>pid := b\<rparr>) = coupled s"
  "coupled (s\<lparr>available_ports := ps\<rparr>) = coupled s"
  "coupled (s\<lparr>serial_port := q\<rparr>) = coupled s"
  "coupled (s\<lparr>port_added_conns := n\<rparr>) = coupled s"
  "coupled (s\<lparr>events := evs\<rparr>) = coupled s"
  "coupled (s\<lparr>written := w\<rparr>) = coupled s"
  "coupled (s\<lparr>starts := m\<rparr>) = coupled s"
  "coupled (s\<lparr>timer_active := t\<rparr>) = coupled s"
  "coupled (s\<lparr>ident_ready_read := r\<rparr>) = coupled s"
  by (simp_all add: coupled_def emit_def signal_def set_error_def)

lemma coupled_deliver_identified:
  "serial_open s \<Longrightarrow> coupled s \<Longrightarrow> coupled (deliver_identified s)"
  by (simp add: deliver_identified_def on_identified_def coupled_def)

text \<open>
  Each function of the loop, with what it needs of the state it is called on:
  \<open>_identify_device\<close> and \<open>start\<close> run on an open transport, \<open>disconnect\<close> needs
  nothing, and the others keep the coupling they find. The loop is entered on a closed
  transport in \<open>DISCONNECTED\<close>, but it goes on after the callbacks of a failed \<open>open()\<close>,
  which may have connected the manager on another port.
\<close>

lemma coupled_loop:
  "coupled s \<Longrightarrow> coupled (try_loop e s)"
  "coupled s \<Longrightarrow> coupled (on_error e err s)"
  "serial_open s \<Longrightarrow> coupled (identify_device e s)"
  "serial_open s \<Longrightarrow> state s = IDENTIFYING \<Longrightarrow> coupled (start e s)"
  "coupled s \<Longrightarrow> coupled (emit_failed e ep n s)"
  "coupled (disconnect e s)"
  "coupled s \<Longrightarrow> coupled (try_next_port e s)"
proof (induct e s and e err s and e s and e s and e ep n s and e s and e s
    rule: try_loop_on_error_identify_device_start_emit_failed_disconnect_try_next_port.induct)
  case (1 e s)
  note c = \<open>coupled s\<close>
  show ?case
  proof (cases "available_ports s")
    case Nil
    with c show ?thesis by (simp add: try_loop.simps [of e s])
  next
    case (Cons p ps)
    let ?s1 = "s\<lparr>available_ports := ps\<rparr>"
    let ?s2 = "?s1\<lparr>serial_port := p\<rparr>"
    have c1: "coupled ?s1" and c2: "coupled ?s2" using c by simp_all
    show ?thesis
    proof (cases "port_matches_filters ?s1 p")
      case False
      from 1(1) [OF Cons refl False c1] Cons False show ?thesis
        by (simp add: try_loop.simps [of e s])
    next
      case True
      then have m: "\<not> \<not> port_matches_filters ?s1 p" by simp
      show ?thesis
      proof (cases "serial_open ?s2")
        case isopen: True
        let ?a = "set_error e OpenError ?s2"
        let ?b = "on_error e OpenError ?a"
        let ?c = "emit (error_occurred (error_string ?b)) ?b"
        have "coupled ?a" using c2 by (simp only: coupled_frame)
        then have "coupled ?b" by (rule 1(2) [OF Cons refl m refl isopen])
        then have "coupled ?c" by (simp only: coupled_frame)
        then have "coupled (try_loop e ?c)" by (rule 1(3) [OF Cons refl m refl isopen refl])
        with Cons True isopen show ?thesis by (simp add: try_loop.simps [of e s] Let_def)
      next
        case closed: False
        let ?s3 = "set_error e NoError ?s2"
        have c3: "coupled ?s3" using c2 by (simp only: coupled_frame)
        show ?thesis
        proof (cases "open_outcome e p = NoError")
          case fails: False
          let ?a = "set_error e (open_outcome e p) ?s3"
          let ?b = "on_error e (open_outcome e p) ?a"
          let ?c = "emit (error_occurred (error_string ?b)) ?b"
          have "coupled ?a" using c3 by (simp only: coupled_frame)
          then have "coupled ?b" by (rule 1(4) [OF Cons refl m refl closed refl fails])
          then have "coupled ?c" by (simp only: coupled_frame)
          then have "coupled (try_loop e ?c)"
            by (rule 1(5) [OF Cons refl m refl closed refl fails refl])
          with Cons True closed fails show ?thesis
            by (simp add: try_loop.simps [of e s] Let_def)
        next
          case opens: True
          then have o: "\<not> open_outcome e p \<noteq> NoError" by simp
          let ?s4 = "?s3\<lparr>serial_open := True\<rparr>"
          have "serial_open ?s4" by simp
          then have "coupled (identify_device e ?s4)"
            by (rule 1(6) [OF Cons refl m refl closed refl o])
          with Cons True closed opens show ?thesis
            by (simp add: try_loop.simps [of e s] Let_def)
        qed
      qed
    qed
  qed
next
  case (2 e err s)
  show ?case
  proof (cases "err = NoError")
    case True
    with 2(2) show ?thesis by (simp add: on_error.simps)
  next
    case False
    from 2(1) [OF False refl refl] False show ?thesis
      by (simp add: on_error.simps Let_def)
  qed
next
  case (3 e s)
  then show ?case by (simp add: identify_device.simps [of e s])
next
  case (4 e s)
  note o = \<open>serial_open s\<close> and i = \<open>state s = IDENTIFYING\<close>
  show ?case
  proof (cases "kind s")
    case BlockingIdentifier
    let ?s1 = "s\<lparr>starts := Suc (starts s), written := written s @ [id_command s]\<rparr>"
    have c1: "coupled ?s1" using o i by (simp add: coupled_def)
    show ?thesis
    proof (cases "reply e (serial_port ?s1) (timeout_ms ?s1)")
      case None
      let ?a = "set_error e TimeoutError ?s1"
      let ?s2 = "on_error e TimeoutError ?a"
      have "coupled ?a" using c1 by (simp only: coupled_frame)
      then have "coupled ?s2" by (rule 4(1) [OF BlockingIdentifier refl None])
      then have "coupled (signal failed ?s2)" by (simp only: coupled_frame)
      then have "coupled (emit_failed e (removals ?s2) (failed_conns ?s2) (signal failed ?s2))"
        by (rule 4(2) [OF BlockingIdentifier refl None refl])
      with BlockingIdentifier None show ?thesis by (simp add: start.simps [of e s] Let_def)
    next
      case (Some data)
      have cs: "coupled (signal sg ?s1)" for sg using c1 by (simp only: coupled_frame)
      show ?thesis
      proof (cases "strip data = expected_response ?s1")
        case True
        have "coupled (deliver_identified (signal identified ?s1))"
          using o cs by (intro coupled_deliver_identified) simp_all
        with BlockingIdentifier Some True show ?thesis by (simp add: start.simps [of e s])
      next
        case False
        from 4(3) [OF BlockingIdentifier refl Some False cs]
        have "coupled (emit_failed e (removals ?s1) (failed_conns ?s1) (signal failed ?s1))" .
        with BlockingIdentifier Some False show ?thesis by (simp add: start.simps [of e s])
      qed
    qed
  next
    case SimpleIdentifier
    with o i show ?thesis by (simp add: start.simps [of e s] coupled_def)
  qed
next
  case (5 e ep s)
  then show ?case by simp
next
  case (6 e ep n s)
  then show ?case by simp
next
  case (7 e s)
  let ?x = "s\<lparr>serial_open := False\<rparr>"
  let ?xb = "?x\<lparr>state := DISCONNECTED\<rparr>"
  have x: "(if serial_open s then s\<lparr>serial_open := False\<rparr> else s) = ?x"
    by (rule close_transport)
  have cb: "coupled (emit disconnected ?xb)" by (simp add: coupled_def)
  show ?case
  proof (cases "state s = IDENTIFYING")
    case True
    then show ?thesis by (simp add: disconnect_identifying coupled_def)
  next
    case False
    then have ne: "state ?x \<noteq> IDENTIFYING" by simp
    have "coupled (try_next_port e (emit disconnected ?xb))"
      using 7 [OF x [symmetric] refl refl] ne cb by (simp add: x)
    with False show ?thesis by (simp add: disconnect.simps [of e s] Let_def x)
  qed
next
  case (8 e s)
  show ?case
  proof (cases "serial_open s \<or> state s \<noteq> DISCONNECTED")
    case True
    with 8(2) show ?thesis by (auto simp: try_next_port.simps [of e s])
  next
    case False
    from 8(1) [OF False 8(2)] False show ?thesis by (simp add: try_next_port.simps [of e s])
  qed
qed

lemma coupled_auto_connect: "coupled s \<Longrightarrow> coupled (auto_connect e v p ports s)"
  by (simp add: auto_connect_def coupled_loop(7))

lemma coupled_send: "coupled s \<Longrightarrow> coupled (send data s)"
  by (simp add: send_def)

lemma coupled_on_port_added: "coupled s \<Longrightarrow> coupled (on_port_added e p s)"
  by (simp add: on_port_added_def Let_def coupled_loop(7))

lemma coupled_port_added: "coupled s \<Longrightarrow> coupled ((on_port_added e p ^^ n) s)"
  by (induction n) (simp_all add: coupled_on_port_added)

lemma coupled_handle_port_removed: "coupled s \<Longrightarrow> coupled (handle_port_removed e p s)"
  by (simp add: handle_port_removed_def coupled_loop(6))

lemma coupled_transport_error: "coupled s \<Longrightarrow> coupled (on_error e err (set_error e err s))"
  by (simp add: coupled_loop(2))

lemma coupled_ident_on_ready_read:
  "coupled s \<Longrightarrow> serial_open s \<Longrightarrow> coupled (ident_on_ready_read e d s)"
  by (simp add: ident_on_ready_read_def Let_def deliver_failed_def coupled_loop(5)
      coupled_deliver_identified)

lemma coupled_ready_read: "coupled s \<Longrightarrow> coupled (ready_read e data s)"
proof -
  assume c: "coupled s"
  obtain evs where served: "serve_ready_read (ready_read_conns s) data s = s\<lparr>events := evs\<rparr>"
    using serve_ready_read_events by blast
  have c': "coupled (s\<lparr>events := evs\<rparr>)" using c by simp
  show ?thesis
    using c c' served coupled_ident_on_ready_read [of "s\<lparr>events := evs\<rparr>" e]
    by (simp add: ready_read_def Let_def)
qed

lemma coupled_timer_timeout: "coupled s \<Longrightarrow> coupled (timer_timeout e s)"
  by (simp add: timer_timeout_def ident_on_timeout_def deliver_failed_def coupled_loop(5))

lemma coupled_step: "coupled s \<Longrightarrow> coupled (step e op s)"
  by (cases op)
     (simp_all add: coupled_auto_connect coupled_loop(6) coupled_send coupled_port_added
        coupled_handle_port_removed coupled_transport_error coupled_ready_read
        coupled_timer_timeout)

lemma coupled_run: "coupled s \<Longrightarrow> coupled (run ops s)"
  by (induction ops arbitrary: s) (auto simp: coupled_step)

lemma coupled_initial: "coupled (initial k cmd expected ms)"
  by (simp add: coupled_def initial_def)

lemma accounted_keeps: "accounted s \<Longrightarrow> keeps_account s t \<Longrightarrow> accounted t"
  by (auto simp: accounted_def keeps_account_def)

lemma accounted_initial: "accounted (initial k cmd expected ms)"
  by (simp add: accounted_def initial_def pending_def)

lemma keeps_account_deliver_identified: "keeps_account s (deliver_identified s)"
  by (simp add: deliver_identified_def on_identified_def keeps_account_def pending_def)

lemma keeps_account_deliver_failed: "keeps_account s (deliver_failed e s)"
  by (simp add: deliver_failed_def keeps_account_loop(5))

lemma keeps_account_auto_connect: "keeps_account s (auto_connect e v p ports s)"
proof -
  let ?t = "s\<lparr>vid := v, pid := p, available_ports := ports,
              port_added_conns := Suc (port_added_conns s)\<rparr>"
  have "keeps_account s ?t" by simp
  then have "keeps_account s (try_next_port e ?t)"
    using keeps_account_loop(7) by (rule keeps_account_trans)
  then show ?thesis by (simp add: auto_connect_def)
qed

lemma keeps_account_on_port_added: "keeps_account s (on_port_added e p s)"
proof -
  let ?t = "s\<lparr>available_ports := available_ports s @ [p]\<rparr>"
  have "keeps_account s ?t" by simp
  then have "keeps_account s (try_next_port e ?t)"
    using keeps_account_loop(7) by (rule keeps_account_trans)
  then show ?thesis by (auto simp: on_port_added_def Let_def)
qed

lemma keeps_account_port_added: "keeps_account s ((on_port_added e p ^^ n) s)"
proof (induction n)
  case 0
  show ?case by simp
next
  case (Suc n)
  then have "keeps_account s (on_port_added e p ((on_port_added e p ^^ n) s))"
    using keeps_account_on_port_added by (rule keeps_account_trans)
  then show ?case by simp
qed

lemma keeps_account_transport_error: "keeps_account s (on_error e err (set_error e err s))"
proof -
  have "keeps_account s (set_error e err s)" by (simp add: set_error_def)
  then show ?thesis using keeps_account_loop(2) by (rule keeps_account_trans)
qed

text \<open>Every operation but the two notifications of the identifier keeps the account.\<close>

lemma keeps_account_step:
  "op \<noteq> Timeout \<Longrightarrow> \<forall>d. op \<noteq> ReadyRead d \<Longrightarrow> keeps_account s (step e op s)"
  by (cases op)
     (simp_all add: keeps_account_auto_connect keeps_account_loop(6) send_def
        keeps_account_port_added handle_port_removed_def keeps_account_transport_error)

text \<open>The two notifications of the identifier, on any manager.\<close>

lemma timer_timeout_unfolded:
  "timer_timeout e s =
     (if timer_active s
      then deliver_failed e
             (signal failed (s\<lparr>timer_active := False, ident_ready_read := False\<rparr>))
      else s)"
  by (simp add: timer_timeout_def ident_on_timeout_def)

lemma ready_read_unfolded:
  "\<exists>evs. ready_read e data s =
     (if serial_open s
      then if ident_ready_read s
           then (let t = s\<lparr>events := evs, timer_active := False, ident_ready_read := False\<rparr>
                 in if strip (if ready_read_conns s = 0 then data else []) = expected_response s
                    then deliver_identified (signal identified t)
                    else deliver_failed e (signal failed t))
           else s\<lparr>events := evs\<rparr>
      else s)"
proof -
  obtain evs where "serve_ready_read (ready_read_conns s) data s = s\<lparr>events := evs\<rparr>"
    using serve_ready_read_events by blast
  then have "ready_read e data s =
     (if serial_open s
      then if ident_ready_read s
           then (let t = s\<lparr>events := evs, timer_active := False, ident_ready_read := False\<rparr>
                 in if strip (if ready_read_conns s = 0 then data else []) = expected_response s
                    then deliver_identified (signal identified t)
                    else deliver_failed e (signal failed t))
           else s\<lparr>events := evs\<rparr>
      else s)"
    by (simp add: ready_read_def ident_on_ready_read_def Let_def)
  then show ?thesis ..
qed

lemma answered_keeps_account:
  assumes "accounted s" and "timer_active s"
  shows "accounted (signal sg (s\<lparr>events := evs, timer_active := False,
                                 ident_ready_read := False\<rparr>))"
  using assms by (auto simp: accounted_def pending_def)

lemma accounted_timer_timeout: "accounted s \<Longrightarrow> accounted (timer_timeout e s)"
proof -
  assume a: "accounted s"
  show ?thesis
  proof (cases "timer_active s")
    case True
    let ?u = "signal failed (s\<lparr>timer_active := False, ident_ready_read := False\<rparr>)"
    have "accounted ?u" using a True by (auto simp: accounted_def pending_def)
    then have "accounted (deliver_failed e ?u)"
      using keeps_account_deliver_failed by (rule accounted_keeps)
    with True show ?thesis by (simp add: timer_timeout_unfolded)
  next
    case False
    with a show ?thesis by (simp add: timer_timeout_unfolded)
  qed
qed

lemma accounted_ready_read: "accounted s \<Longrightarrow> accounted (ready_read e data s)"
proof -
  assume a: "accounted s"
  obtain evs where r: "ready_read e data s =
     (if serial_open s
      then if ident_ready_read s
           then (let t = s\<lparr>events := evs, timer_active := False, ident_ready_read := False\<rparr>
                 in if strip (if ready_read_conns s = 0 then data else []) = expected_response s
                    then deliver_identified (signal identified t)
                    else deliver_failed e (signal failed t))
           else s\<lparr>events := evs\<rparr>
      else s)"
    using ready_read_unfolded by blast
  have quiet: "accounted (s\<lparr>events := evs\<rparr>)"
    using a by (simp add: accounted_def pending_def)
  have loud: "accounted (deliver_identified (signal identified
                (s\<lparr>events := evs, timer_active := False, ident_ready_read := False\<rparr>)))"
    "accounted (deliver_failed e (signal failed
                (s\<lparr>events := evs, timer_active := False, ident_ready_read := False\<rparr>)))"
    if "ident_ready_read s"
  proof -
    from that a have t: "timer_active s" by (simp add: accounted_def)
    show "accounted (deliver_identified (signal identified
                (s\<lparr>events := evs, timer_active := False, ident_ready_read := False\<rparr>)))"
      using answered_keeps_account [OF a t] keeps_account_deliver_identified
      by (rule accounted_keeps)
    show "accounted (deliver_failed e (signal failed
                (s\<lparr>events := evs, timer_active := False, ident_ready_read := False\<rparr>)))"
      using answered_keeps_account [OF a t] keeps_account_deliver_failed
      by (rule accounted_keeps)
  qed
  show ?thesis
    unfolding r using a quiet loud by (simp add: Let_def)
qed

lemma accounted_step: "accounted s \<Longrightarrow> accounted (step e op s)"
proof -
  assume a: "accounted s"
  show ?thesis
  proof (cases op)
    case (ReadyRead d)
    with a show ?thesis by (simp add: accounted_ready_read)
  next
    case Timeout
    with a show ?thesis by (simp add: accounted_timer_timeout)
  next
    case (AutoConnect v p ports)
    have "keeps_account s (step e op s)" using AutoConnect by (intro keeps_account_step) simp_all
    with a show ?thesis by (rule accounted_keeps)
  next
    case Disconnect
    have "keeps_account s (step e op s)" using Disconnect by (intro keeps_account_step) simp_all
    with a show ?thesis by (rule accounted_keeps)
  next
    case (Send d)
    have "keeps_account s (step e op s)" using Send by (intro keeps_account_step) simp_all
    with a show ?thesis by (rule accounted_keeps)
  next
    case (PortAdded p)
    have "keeps_account s (step e op s)" using PortAdded by (intro keeps_account_step) simp_all
    with a show ?thesis by (rule accounted_keeps)
  next
    case (PortRemoved p)
    have "keeps_account s (step e op s)" using PortRemoved by (intro keeps_account_step) simp_all
    with a show ?thesis by (rule accounted_keeps)
  next
    case (TransportError err)
    have "keeps_account s (step e op s)" using TransportError by (intro keeps_account_step) simp_all
    with a show ?thesis by (rule accounted_keeps)
  qed
qed

lemma accounted_run: "accounted s \<Longrightarrow> accounted (run ops s)"
  by (induction ops arbitrary: s) (auto simp: accounted_step)

lemma kind_deliver_failed: "kind (deliver_failed e s) = kind s"
  using keeps_account_deliver_failed [of s e] by (simp add: keeps_account_def)

lemma kind_ready_read: "kind (ready_read e data s) = kind s"
proof -
  obtain evs where r: "ready_read e data s =
     (if serial_open s
      then if ident_ready_read s
           then (let t = s\<lparr>events := evs, timer_active := False, ident_ready_read := False\<rparr>
                 in if strip (if ready_read_conns s = 0 then data else []) = expected_response s
                    then deliver_identified (signal identified t)
                    else deliver_failed e (signal failed t))
           else s\<lparr>events := evs\<rparr>
      else s)"
    using ready_read_unfolded by blast
  show ?thesis
    unfolding r
    by (simp add: Let_def kind_deliver_failed deliver_identified_def on_identified_def)
qed

lemma kind_step: "kind (step e op s) = kind s"
proof (cases op)
  case (ReadyRead d)
  then show ?thesis by (simp add: kind_ready_read)
next
  case Timeout
  then show ?thesis by (simp add: timer_timeout_unfolded kind_deliver_failed)
next
  case (AutoConnect v p ports)
  have "keeps_account s (step e op s)" using AutoConnect by (intro keeps_account_step) simp_all
  then show ?thesis by (simp add: keeps_account_def)
next
  case Disconnect
  have "keeps_account s (step e op s)" using Disconnect by (intro keeps_account_step) simp_all
  then show ?thesis by (simp add: keeps_account_def)
next
  case (Send d)
  then show ?thesis by (simp add: send_def)
next
  case (PortAdded p)
  have "keeps_account s (step e op s)" using PortAdded by (intro keeps_account_step) simp_all
  then show ?thesis by (simp add: keeps_account_def)
next
  case (PortRemoved p)
  have "keeps_account s (step e op s)" using PortRemoved by (intro keeps_account_step) simp_all
  then show ?thesis by (simp add: keeps_account_def)
next
  case (TransportError err)
  have "keeps_account s (step e op s)" using TransportError by (intro keeps_account_step) simp_all
  then show ?thesis by (simp add: keeps_account_def)
qed

lemma kind_run: "kind (run ops s) = kind s"
  by (induction ops arbitrary: s) (auto simp: kind_step)

text \<open>A manager with a non-blocking identifier: what the two notifications signal.\<close>

lemma simple_signals_deliver_failed:
  "kind s = SimpleIdentifier \<Longrightarrow> signals (deliver_failed e s) = signals s"
  using keeps_account_deliver_failed [of s e] by (simp add: keeps_account_def)

lemma simple_timeout:
  "kind s = SimpleIdentifier \<Longrightarrow>
     signals (timer_timeout e s) = signals s @ (if timer_active s then [failed] else [])"
  by (simp add: timer_timeout_unfolded simple_signals_deliver_failed)

lemma simple_ready_read:
  assumes "kind s = SimpleIdentifier"
  shows "signals (ready_read e data s) = signals s @
     (if serial_open s \<and> ident_ready_read s
      then [if strip (if ready_read_conns s = 0 then data else []) = expected_response s
            then identified else failed]
      else [])"
proof -
  obtain evs where r: "ready_read e data s =
     (if serial_open s
      then if ident_ready_read s
           then (let t = s\<lparr>events := evs, timer_active := False, ident_ready_read := False\<rparr>
                 in if strip (if ready_read_conns s = 0 then data else []) = expected_response s
                    then deliver_identified (signal identified t)
                    else deliver_failed e (signal failed t))
           else s\<lparr>events := evs\<rparr>
      else s)"
    using ready_read_unfolded by blast
  show ?thesis
    unfolding r using assms
    by (simp add: Let_def simple_signals_deliver_failed deliver_identified_def
        on_identified_def)
qed

lemma blocking_notifications:
  assumes "accounted s" and "kind s = BlockingIdentifier"
  shows "signals (ready_read e data s) = signals s \<and> signals (timer_timeout e s) = signals s"
proof -
  from assms have quiet: "\<not> timer_active s" "\<not> ident_ready_read s"
    by (simp_all add: accounted_def)
  obtain evs where "serve_ready_read (ready_read_conns s) data s = s\<lparr>events := evs\<rparr>"
    using serve_ready_read_events by blast
  with quiet show ?thesis by (simp add: ready_read_def timer_timeout_def Let_def)
qed

subsection \<open>The scenarios of the specification\<close>

text \<open>
  Scenario A (a vendor filter that no port matches: the queue is exhausted, nothing is
  emitted), Scenario B (the device echoes \<open>OK\<close> and a line feed), Scenario C (the device
  answers \<open>NO\<close>) and Scenario E (the timeout comes first; the port is closed by then, and
  data no longer reaches the identifier).
\<close>

lemma scenario_A:
  "state (auto_connect (answering (Some ''OK'')) (Some 1027) None
            [COM1\<lparr>vendorIdentifier := Some 9025\<rparr>, COM2]
            (initial BlockingIdentifier ''ID?'' ''OK'' 500)) = DISCONNECTED \<and>
   events (auto_connect (answering (Some ''OK'')) (Some 1027) None
            [COM1\<lparr>vendorIdentifier := Some 9025\<rparr>, COM2]
            (initial BlockingIdentifier ''ID?'' ''OK'' 500)) = [] \<and>
   available_ports (auto_connect (answering (Some ''OK'')) (Some 1027) None
            [COM1\<lparr>vendorIdentifier := Some 9025\<rparr>, COM2]
            (initial BlockingIdentifier ''ID?'' ''OK'' 500)) = []"
  by (simp add: eval_simps)

lemma scenario_B:
  "state (auto_connect (answering (Some [CHR ''O'', CHR ''K'', CHR 0x0A])) None None [COM1]
            (initial BlockingIdentifier ''ID?'' ''OK'' 500)) = CONNECTED \<and>
   events (auto_connect (answering (Some [CHR ''O'', CHR ''K'', CHR 0x0A])) None None [COM1]
            (initial BlockingIdentifier ''ID?'' ''OK'' 500)) = [connected ''COM1'']"
  by (simp add: eval_simps)

lemma scenario_C:
  "state (auto_connect (answering (Some ''NO'')) None None [COM1]
            (initial BlockingIdentifier ''ID?'' ''OK'' 500)) = DISCONNECTED \<and>
   events (auto_connect (answering (Some ''NO'')) None None [COM1]
            (initial BlockingIdentifier ''ID?'' ''OK'' 500)) = []"
  by (simp add: eval_simps)

lemma scenario_E:
  "signals (run [(answering None, AutoConnect None None [COM1]), (answering None, Timeout),
                 (answering None, ReadyRead ''OK'')]
              (initial SimpleIdentifier ''ID?'' ''OK'' 500)) = [failed] \<and>
   state (run [(answering None, AutoConnect None None [COM1]), (answering None, Timeout),
                 (answering None, ReadyRead ''OK'')]
              (initial SimpleIdentifier ''ID?'' ''OK'' 500)) = DISCONNECTED"
  by (simp add: eval_simps)

subsection \<open>Candidates that fail before the identifier answers\<close>

text \<open>
  A candidate on which the blocking wait times out is reported on the error channel, and
  the next candidate is tried inside the same call: \<open>_on_error\<close> closes the port, and
  \<open>failed\<close> then finds the manager in \<open>DISCONNECTED\<close>.
\<close>

lemma silent_candidate_is_reported_and_skipped:
  "state first_candidate_silent = CONNECTED \<and> serial_open first_candidate_silent \<and>
   portName (serial_port first_candidate_silent) = ''COM2'' \<and>
   available_ports first_candidate_silent = [] \<and>
   signals first_candidate_silent = [failed, identified] \<and>
   written first_candidate_silent = [''ID?'', ''ID?''] \<and>
   events first_candidate_silent =
     [error_occurred ''Identification failed: Operation timed out'', disconnected,
      connected ''COM2'']"
  by (simp add: first_candidate_silent_def COM1_silent_def eval_simps)

text \<open>
  A candidate that does not open is reported twice, by \<open>_on_error\<close> and by the loop; the
  \<open>disconnect()\<close> of \<open>_on_error\<close> has by then emitted \<open>disconnected\<close> and connected the
  manager on the next candidate. With no other candidate the manager stays
  \<open>DISCONNECTED\<close>.
\<close>

lemma locked_candidate_is_reported_and_skipped:
  "state first_candidate_locked = CONNECTED \<and> serial_open first_candidate_locked \<and>
   portName (serial_port first_candidate_locked) = ''COM2'' \<and>
   signals first_candidate_locked = [identified] \<and>
   events first_candidate_locked =
     [disconnected, connected ''COM2'', error_occurred ''Access denied'',
      error_occurred ''No error'']"
  by (simp add: first_candidate_locked_def COM1_locked_def eval_simps)

lemma only_candidate_locked:
  "state (auto_connect COM1_locked None None [COM1]
            (initial BlockingIdentifier ''ID?'' ''OK'' 500)) = DISCONNECTED \<and>
   events (auto_connect COM1_locked None None [COM1]
            (initial BlockingIdentifier ''ID?'' ''OK'' 500)) =
     [disconnected, error_occurred ''Access denied'', error_occurred ''Access denied'']"
  by (simp add: COM1_locked_def eval_simps)

text \<open>
  After a rejected candidate, \<open>disconnect()\<close> goes on with the queue; the attempt on
  \<open>COM2\<close> succeeds, \<open>_on_identified\<close> runs once and leaves one data-ready connection.
\<close>

lemma second_attempt_after_rejection:
  "events (step (answering (Some ''OK'')) Disconnect first_candidate_rejected) =
     [disconnected, connected ''COM2''] \<and>
   ready_read_conns (step (answering (Some ''OK'')) Disconnect first_candidate_rejected) = 1 \<and>
   identified_conns (step (answering (Some ''OK'')) Disconnect first_candidate_rejected) = 0 \<and>
   failed_conns (step (answering (Some ''OK'')) Disconnect first_candidate_rejected) = 0"
  by (simp add: first_candidate_rejected_def eval_simps)

text \<open>
  Three candidates are rejected and the fourth is accepted. The second and the third
  \<open>failed\<close> find \<open>disconnect\<close> connected more than once and go on with the queue
  inside the emission; the connections that \<open>_on_identified\<close> removes on \<open>COM4\<close> are
  not served when the emissions resume, and the manager stays \<open>CONNECTED\<close>.
\<close>

lemma connections_removed_during_an_emission_are_skipped:
  "state (run [(COM4_accepted, AutoConnect None None [COM1, COM2, COM3, COM4]),
               (COM4_accepted, Disconnect)]
            (initial BlockingIdentifier ''ID?'' ''OK'' 500)) = CONNECTED \<and>
   events (run [(COM4_accepted, AutoConnect None None [COM1, COM2, COM3, COM4]),
                (COM4_accepted, Disconnect)]
             (initial BlockingIdentifier ''ID?'' ''OK'' 500)) =
     [disconnected, disconnected, disconnected, connected ''COM4''] \<and>
   signals (run [(COM4_accepted, AutoConnect None None [COM1, COM2, COM3, COM4]),
                 (COM4_accepted, Disconnect)]
              (initial BlockingIdentifier ''ID?'' ''OK'' 500)) =
     [failed, failed, failed, identified]"
  by (simp add: COM4_accepted_def COM3_def COM4_def eval_simps)

section \<open>The port monitor\<close>

lemma scan_added:
  "filter (\<lambda>sg. \<exists>p. sg = port_added p) (fst (scan known_ports ports)) =
     map port_added (filter (\<lambda>port. portName port \<notin> known_ports) ports)"
proof -
  have "filter (\<lambda>port. portName port \<in> known_ports - set (map portName ports)) ports = []"
    by (induction ports) auto
  then show ?thesis
    by (simp add: scan_def Let_def filter_map comp_def)
qed

lemma scan_remembers: "snd (scan known_ports ports) = set (map portName ports)"
  by (simp add: scan_def Let_def)

lemma scan_never_removes: "port_removed p \<notin> set (fst (scan known_ports ports))"
  by (auto simp: scan_def Let_def)

text \<open>
  C3. A scan tick is to emit one \<open>port_added\<close> for each name that is new in the snapshot,
  one \<open>port_removed\<close> for each remembered name that the snapshot lacks, and then to
  remember the snapshot's names. The second loop of \<open>_scan\<close> runs over the snapshot, and
  no port of the snapshot has a name the snapshot lacks: with \<open>COM1\<close> remembered and no
  port enumerated, the scan emits nothing and forgets \<open>COM1\<close>.
\<close>

theorem scan_drops_removed_port: "scan {''COM1''} [] = ([], {})"
  by (simp add: scan_def)

section \<open>The identifiers\<close>

text \<open>
  C5, as stated: the blocking identifier trims trailing whitespace from the response and
  signals \<open>identified\<close> exactly when the result equals the expected response. The device
  answers \<open>OK\<close> after a space; with trailing whitespace trimmed that is not the expected
  \<open>OK\<close>, yet the identifier signals \<open>identified\<close>.
\<close>

theorem blocking_identifier_trims_leading_whitespace:
  "signals answered_after_space = [identified] \<and> state answered_after_space = CONNECTED \<and>
   trim_trailing '' OK'' \<noteq> ''OK''"
  by (simp add: answered_after_space_def trim_trailing_def eval_simps)

lemma timeout_while_identifying:
  "state s = IDENTIFYING \<Longrightarrow>
     on_error e TimeoutError (set_error e TimeoutError s) =
       emit (error_occurred (''Identification failed: '' @ errorString e TimeoutError (serial_port s)))
         (s\<lparr>error_string := errorString e TimeoutError (serial_port s),
            serial_open := False, state := DISCONNECTED\<rparr>)"
  by (simp add: on_error.simps set_error_def Let_def disconnect_identifying)

text \<open>
  C5, amended: the blocking identifier, started by a manager in \<open>IDENTIFYING\<close> (as
  \<open>_identify_device\<close> does), writes the command bytes and then signals \<open>identified\<close>
  when the wait reads a response within the timeout that equals the expected response
  after ASCII whitespace is removed at both of its ends, and \<open>failed\<close> otherwise (another
  response, or none within the timeout). After \<open>identified\<close> the call writes and signals
  nothing more; after \<open>failed\<close> the manager's slots run before \<open>start\<close> returns, and what
  they write and make the identifier signal (the next attempt) follows.
\<close>

theorem blocking_start_compares_stripped_response:
  assumes "kind s = BlockingIdentifier" and "state s = IDENTIFYING"
  shows "\<exists>ws sgs.
     written (start e s) = written s @ [id_command s] @ ws \<and>
     signals (start e s) = signals s @
       [if \<exists>data. reply e (serial_port s) (timeout_ms s) = Some data \<and>
                   strip data = expected_response s
        then identified else failed] @ sgs \<and>
     ((\<exists>data. reply e (serial_port s) (timeout_ms s) = Some data \<and>
               strip data = expected_response s) \<longrightarrow> ws = [] \<and> sgs = [])"
proof -
  let ?s1 = "s\<lparr>starts := Suc (starts s), written := written s @ [id_command s]\<rparr>"
  show ?thesis
  proof (cases "reply e (serial_port s) (timeout_ms s)")
    case None
    let ?s2 = "on_error e TimeoutError (set_error e TimeoutError ?s1)"
    have s2: "written ?s2 = written s @ [id_command s]" "signals ?s2 = signals s"
      using assms(2) by (simp_all add: timeout_while_identifying)
    have "extends (signal failed ?s2)
        (emit_failed e (removals ?s2) (failed_conns ?s2) (signal failed ?s2))"
      by (rule extends_loop)
    moreover have "start e s = emit_failed e (removals ?s2) (failed_conns ?s2) (signal failed ?s2)"
      using assms(1) None by (simp add: start.simps [of e s] Let_def)
    ultimately obtain ws sgs where
      "written (start e s) = written s @ [id_command s] @ ws"
      "signals (start e s) = signals s @ [failed] @ sgs"
      using s2 by (auto simp: extends_def)
    with None show ?thesis by simp
  next
    case (Some data)
    show ?thesis
    proof (cases "strip data = expected_response s")
      case True
      have "start e s = deliver_identified (signal identified ?s1)"
        using assms(1) Some True by (simp add: start.simps [of e s])
      then have "written (start e s) = written s @ [id_command s]"
        "signals (start e s) = signals s @ [identified]"
        by (simp_all add: deliver_identified_def on_identified_def)
      with Some True show ?thesis by simp
    next
      case False
      have "extends (signal failed ?s1)
          (emit_failed e (removals ?s1) (failed_conns ?s1) (signal failed ?s1))"
        by (rule extends_loop)
      moreover have
        "start e s = emit_failed e (removals ?s1) (failed_conns ?s1) (signal failed ?s1)"
        using assms(1) Some False by (simp add: start.simps [of e s])
      ultimately obtain ws sgs where
        "written (start e s) = written s @ [id_command s] @ ws"
        "signals (start e s) = signals s @ [failed] @ sgs"
        by (auto simp: extends_def)
      with Some False show ?thesis by simp
    qed
  qed
qed

text \<open>
  The device echoes \<open>OK\<close> and a line feed (Scenario B of the specification); and \<open>COM1\<close>
  stays silent while \<open>COM2\<close>, queued, answers \<open>OK\<close>.
\<close>

theorem blocking_start_compares_stripped_response_witness:
  "kind blocking_about_to_start = BlockingIdentifier \<and>
   state blocking_about_to_start = IDENTIFYING \<and>
   written (start (answering (Some [CHR ''O'', CHR ''K'', CHR 0x0A])) blocking_about_to_start)
     = [''ID?''] \<and>
   signals (start (answering (Some [CHR ''O'', CHR ''K'', CHR 0x0A])) blocking_about_to_start)
     = [identified] \<and>
   kind blocking_about_to_start_COM2_queued = BlockingIdentifier \<and>
   state blocking_about_to_start_COM2_queued = IDENTIFYING \<and>
   (\<exists>ws sgs.
      written (start COM1_silent blocking_about_to_start_COM2_queued) = [''ID?''] @ ws \<and>
      signals (start COM1_silent blocking_about_to_start_COM2_queued) = [failed] @ sgs) \<and>
   written (start COM1_silent blocking_about_to_start_COM2_queued) = [''ID?'', ''ID?''] \<and>
   signals (start COM1_silent blocking_about_to_start_COM2_queued) = [failed, identified]"
proof -
  have k: "kind blocking_about_to_start = BlockingIdentifier"
    and st: "state blocking_about_to_start = IDENTIFYING"
    by (simp_all add: blocking_about_to_start_def initial_def)
  have fields: "written blocking_about_to_start = []" "signals blocking_about_to_start = []"
    "id_command blocking_about_to_start = ''ID?''"
    "expected_response blocking_about_to_start = ''OK''"
    "serial_port blocking_about_to_start = COM1"
    by (simp_all add: blocking_about_to_start_def initial_def)
  have k2: "kind blocking_about_to_start_COM2_queued = BlockingIdentifier"
    and st2: "state blocking_about_to_start_COM2_queued = IDENTIFYING"
    by (simp_all add: blocking_about_to_start_COM2_queued_def blocking_about_to_start_def
        initial_def)
  have fields2: "written blocking_about_to_start_COM2_queued = []"
    "signals blocking_about_to_start_COM2_queued = []"
    "id_command blocking_about_to_start_COM2_queued = ''ID?''"
    "expected_response blocking_about_to_start_COM2_queued = ''OK''"
    "serial_port blocking_about_to_start_COM2_queued = COM1"
    by (simp_all add: blocking_about_to_start_COM2_queued_def blocking_about_to_start_def
        initial_def)
  have run2:
    "written (start COM1_silent blocking_about_to_start_COM2_queued) = [''ID?'', ''ID?'']"
    "signals (start COM1_silent blocking_about_to_start_COM2_queued) = [failed, identified]"
    by (simp_all add: blocking_about_to_start_COM2_queued_def blocking_about_to_start_def
        COM1_silent_def eval_simps)
  have silent: "reply COM1_silent COM1 t = None" for t
    by (simp add: COM1_silent_def world_def COM1_def)
  show ?thesis
    using blocking_start_compares_stripped_response
      [OF k st, of "answering (Some [CHR ''O'', CHR ''K'', CHR 0x0A])"]
      blocking_start_compares_stripped_response [OF k2 st2, of COM1_silent]
      k st fields k2 st2 fields2 run2 silent
    by (auto simp: answering_def world_def strip_def is_space_def)
qed

text \<open>
  C4, as stated: when \<open>disconnect()\<close> preempts an identification attempt, the identifier's
  timer and data-ready subscription are torn down, so that no stale signal follows. After
  \<open>disconnect()\<close> the non-blocking identifier has signalled nothing, its timer is active and
  its slot connected; the timeout then signals \<open>failed\<close>, which the manager takes as a
  disconnect of its own.
\<close>

theorem disconnect_leaves_identifier_armed:
  "signals attempt_preempted = [] \<and> events attempt_preempted = [] \<and>
   state attempt_preempted = DISCONNECTED \<and>
   timer_active attempt_preempted \<and> ident_ready_read attempt_preempted \<and>
   signals (step (answering None) Timeout attempt_preempted) = [failed] \<and>
   events (step (answering None) Timeout attempt_preempted) = [disconnected]"
  by (simp add: attempt_preempted_def lone_attempt_in_flight_def eval_simps)

text \<open>
  C4, amended: in every state a manager reaches, each call of \<open>start\<close> made so far is
  accounted for exactly once: it has been followed by one signal, \<open>identified\<close> or
  \<open>failed\<close>; or a later \<open>start\<close> found the timer still running and restarted it, and
  that earlier attempt gets no signal of its own; or it is the attempt whose timer runs
  (the data-ready slot is connected exactly then). A blocking identifier has no timer and
  no restart, so it has signalled once per \<open>start\<close>, and neither data-ready nor a timeout
  makes it signal. With the non-blocking identifier the timeout signals \<open>failed\<close> and
  nothing else if the timer runs and nothing if not, data-ready signals one of the two
  if the port is open and the timer runs and nothing if not, and no other operation
  signals. \<open>disconnect()\<close> in \<open>IDENTIFYING\<close> tears nothing down: timer and slot stay as
  they are, nothing is signalled, and a timer that runs then signals \<open>failed\<close> to the
  manager that has moved on.
\<close>

theorem every_start_is_accounted_for:
  assumes "s = run ops (initial k cmd expected ms)"
  shows
   "starts s = length (signals s) + restarts s + (if timer_active s then 1 else 0) \<and>
    ident_ready_read s = timer_active s \<and>
    (k = BlockingIdentifier \<longrightarrow>
       \<not> timer_active s \<and> restarts s = 0 \<and> starts s = length (signals s) \<and>
       signals (step e (ReadyRead data) s) = signals s \<and>
       signals (step e Timeout s) = signals s) \<and>
    (k = SimpleIdentifier \<longrightarrow>
       signals (step e Timeout s) = signals s @ (if timer_active s then [failed] else []) \<and>
       signals (step e (ReadyRead data) s) = signals s @
         (if serial_open s \<and> timer_active s
          then [if strip (if ready_read_conns s = 0 then data else []) = expected_response s
                then identified else failed]
          else []) \<and>
       (op \<noteq> Timeout \<and> (\<forall>d. op \<noteq> ReadyRead d) \<longrightarrow> signals (step e op s) = signals s)) \<and>
    (state s = IDENTIFYING \<longrightarrow>
       timer_active (disconnect e s) = timer_active s \<and>
       ident_ready_read (disconnect e s) = ident_ready_read s \<and>
       signals (disconnect e s) = signals s \<and>
       signals (step e Timeout (disconnect e s)) =
         signals s @ (if timer_active s then [failed] else []))"
proof -
  have a: "accounted s"
    unfolding assms using accounted_initial by (rule accounted_run)
  have k: "kind s = k"
    unfolding assms by (simp add: kind_run initial_def)
  have books: "starts s = length (signals s) + restarts s + (if timer_active s then 1 else 0)"
    "ident_ready_read s = timer_active s"
    using a by (simp_all add: accounted_def pending_def)
  have blocking: "\<not> timer_active s \<and> restarts s = 0 \<and> starts s = length (signals s) \<and>
       signals (step e (ReadyRead data) s) = signals s \<and>
       signals (step e Timeout s) = signals s" if "k = BlockingIdentifier"
    using that a k blocking_notifications [of s e data]
    by (simp add: accounted_def pending_def)
  have simple: "signals (step e Timeout s) =
        signals s @ (if timer_active s then [failed] else []) \<and>
       signals (step e (ReadyRead data) s) = signals s @
         (if serial_open s \<and> timer_active s
          then [if strip (if ready_read_conns s = 0 then data else []) = expected_response s
                then identified else failed]
          else []) \<and>
       (op \<noteq> Timeout \<and> (\<forall>d. op \<noteq> ReadyRead d) \<longrightarrow> signals (step e op s) = signals s)"
    if "k = SimpleIdentifier"
  proof -
    from that k have ks: "kind s = SimpleIdentifier" by simp
    have "signals (step e op s) = signals s" if "op \<noteq> Timeout" "\<forall>d. op \<noteq> ReadyRead d"
      using keeps_account_step [OF that, of s e] ks by (simp add: keeps_account_def)
    then show ?thesis
      using simple_timeout [OF ks, of e] simple_ready_read [OF ks, of e data] books(2)
      by simp
  qed
  have preempted: "timer_active (disconnect e s) = timer_active s \<and>
       ident_ready_read (disconnect e s) = ident_ready_read s \<and>
       signals (disconnect e s) = signals s \<and>
       signals (step e Timeout (disconnect e s)) =
         signals s @ (if timer_active s then [failed] else [])" if "state s = IDENTIFYING"
  proof (cases k)
    case BlockingIdentifier
    with blocking have "\<not> timer_active s" by simp
    with that show ?thesis by (simp add: disconnect_identifying timer_timeout_def)
  next
    case SimpleIdentifier
    with k have "kind (s\<lparr>serial_open := False, state := DISCONNECTED\<rparr>) = SimpleIdentifier"
      by simp
    from simple_timeout [OF this, of e] that show ?thesis
      by (simp add: disconnect_identifying)
  qed
  from books blocking simple preempted show ?thesis by blast
qed

text \<open>
  An attempt that has timed out; an attempt preempted and overtaken by the next one; an
  attempt in flight; and a blocking identifier after two attempts in one call.
\<close>

theorem every_start_is_accounted_for_witness:
  "starts attempt_timed_out = 1 \<and> signals attempt_timed_out = [failed] \<and>
   restarts attempt_timed_out = 0 \<and> \<not> timer_active attempt_timed_out \<and>
   \<not> ident_ready_read attempt_timed_out \<and>
   signals (step (answering None) Timeout attempt_timed_out) = [failed] \<and>
   signals (step (answering None) (ReadyRead ''OK'') attempt_timed_out) = [failed] \<and>
   signals (step (answering None) Disconnect attempt_timed_out) = [failed] \<and>
   starts attempt_restarted = 2 \<and> signals attempt_restarted = [] \<and>
   restarts attempt_restarted = 1 \<and> timer_active attempt_restarted \<and>
   ident_ready_read attempt_restarted \<and>
   state attempt_restarted = IDENTIFYING \<and> serial_open attempt_restarted \<and>
   signals (step (answering None) Timeout attempt_restarted) = [failed] \<and>
   signals (step (answering None) (ReadyRead ''OK'') attempt_restarted) = [identified] \<and>
   timer_active (disconnect (answering None) attempt_restarted) \<and>
   ident_ready_read (disconnect (answering None) attempt_restarted) \<and>
   signals (disconnect (answering None) attempt_restarted) = [] \<and>
   signals (step (answering None) Timeout (disconnect (answering None) attempt_restarted))
     = [failed] \<and>
   starts first_candidate_silent = 2 \<and> signals first_candidate_silent = [failed, identified] \<and>
   restarts first_candidate_silent = 0 \<and> \<not> timer_active first_candidate_silent \<and>
   signals (step COM1_silent (ReadyRead ''OK'') first_candidate_silent)
     = [failed, identified] \<and>
   signals (step COM1_silent Timeout first_candidate_silent) = [failed, identified]"
proof -
  have t: "attempt_timed_out =
      run [(answering None, AutoConnect None None [COM1]), (answering None, Timeout)]
        (initial SimpleIdentifier ''ID?'' ''OK'' 500)"
    by (simp add: attempt_timed_out_def)
  have r: "attempt_restarted =
      run [(answering None, AutoConnect None None [COM1]), (answering None, Disconnect),
           (answering None, PortAdded COM2)]
        (initial SimpleIdentifier ''ID?'' ''OK'' 500)"
    by (simp add: attempt_restarted_def)
  have b: "first_candidate_silent =
      run [(COM1_silent, AutoConnect None None [COM1, COM2])]
        (initial BlockingIdentifier ''ID?'' ''OK'' 500)"
    by (simp add: first_candidate_silent_def)
  have tv: "signals attempt_timed_out = [failed]" "restarts attempt_timed_out = 0"
    "\<not> timer_active attempt_timed_out"
    by (simp_all add: attempt_timed_out_def eval_simps)
  have rv: "signals attempt_restarted = []" "restarts attempt_restarted = 1"
    "timer_active attempt_restarted" "state attempt_restarted = IDENTIFYING"
    "serial_open attempt_restarted" "ready_read_conns attempt_restarted = 0"
    "expected_response attempt_restarted = ''OK''"
    by (simp_all add: attempt_restarted_def eval_simps)
  have bv: "signals first_candidate_silent = [failed, identified]"
    by (simp add: first_candidate_silent_def COM1_silent_def eval_simps)
  show ?thesis
    using every_start_is_accounted_for [OF t, of "answering None" "''OK''" Disconnect]
      every_start_is_accounted_for [OF r, of "answering None" "''OK''" Disconnect]
      every_start_is_accounted_for [OF b, of COM1_silent "''OK''" Disconnect]
      tv rv bv
    by (simp add: strip_def is_space_def)
qed

section \<open>The connection manager\<close>

text \<open>
  C1. When an identification attempt fails, the manager is to close the transport, return
  to \<open>DISCONNECTED\<close> without a \<open>disconnected\<close> event, report the failure on the error
  channel and go on with the remaining candidates. It does so when the blocking wait
  times out (\<open>silent_candidate_is_reported_and_skipped\<close>), and it goes on when a port
  does not open (\<open>locked_candidate_is_reported_and_skipped\<close>). When the identifier
  signals \<open>failed\<close> in \<open>IDENTIFYING\<close>, \<open>disconnect()\<close> skips \<open>_try_next_port()\<close> together
  with the event, and nothing reaches the error channel: with \<open>COM1\<close> and \<open>COM2\<close>
  present and the device on \<open>COM1\<close> answering \<open>NO\<close>, \<open>auto_connect()\<close> returns with the
  attempt failed, nothing emitted and \<open>COM2\<close> still queued, never tried.
\<close>

theorem failed_identification_ends_the_cycle:
  "signals first_candidate_rejected = [failed] \<and>
   state first_candidate_rejected = DISCONNECTED \<and>
   \<not> serial_open first_candidate_rejected \<and>
   available_ports first_candidate_rejected = [COM2] \<and>
   events first_candidate_rejected = []"
  by (simp add: first_candidate_rejected_def eval_simps)

text \<open>
  C2: after every operation and every notification handler of the connection manager
  (\<open>auto_connect\<close>, \<open>disconnect\<close>, \<open>send\<close>, an identification outcome, port added, port
  removed, transport error), that is in every state a manager reaches from its
  construction, the transport is open if and only if the state is \<open>IDENTIFYING\<close> or
  \<open>CONNECTED\<close>.
\<close>

theorem transport_open_iff_identifying_or_connected:
  "serial_open (run ops (initial k cmd expected ms)) =
     (state (run ops (initial k cmd expected ms)) = IDENTIFYING \<or>
      state (run ops (initial k cmd expected ms)) = CONNECTED)"
  using coupled_run [OF coupled_initial, of ops k cmd expected ms] by (simp add: coupled_def)

text \<open>
  C6, as stated: the candidate queue is non-empty only in \<open>DISCONNECTED\<close>; no operation,
  a port added notification in \<open>CONNECTED\<close> included, leaves it non-empty in another
  state. A manager connected on \<open>COM1\<close> is told that \<open>COM2\<close> was added: it stays
  \<open>CONNECTED\<close> and holds \<open>COM2\<close> in its queue.
\<close>

theorem queue_nonempty_while_connected:
  "state connected_then_port_added = CONNECTED \<and>
   available_ports connected_then_port_added = [COM2]"
  by (simp add: connected_then_port_added_def connected_blocking_def eval_simps)

text \<open>
  C6, amended: the candidate queue is emptied when identification succeeds, on the way
  into \<open>CONNECTED\<close>; a port added notification that arrives in \<open>IDENTIFYING\<close> or
  \<open>CONNECTED\<close> appends the port to the queue and does nothing else, so the queue can be
  non-empty in these states.
\<close>

theorem queue_cleared_on_success_then_appended:
  "available_ports (on_identified s) = [] \<and>
   (state s \<noteq> DISCONNECTED \<longrightarrow>
      on_port_added e p s = s\<lparr>available_ports := available_ports s @ [p]\<rparr>)"
  by (simp add: on_identified_def on_port_added_def Let_def)

theorem queue_cleared_on_success_then_appended_witness:
  "available_ports (on_identified attempt_in_flight) = [] \<and>
   state connected_blocking \<noteq> DISCONNECTED \<and>
   on_port_added (answering None) COM2 connected_blocking =
     connected_blocking\<lparr>available_ports := available_ports connected_blocking @ [COM2]\<rparr>"
proof -
  have h: "state connected_blocking \<noteq> DISCONNECTED"
    by (simp add: connected_blocking_def eval_simps)
  show ?thesis
    using queue_cleared_on_success_then_appended [of attempt_in_flight]
      queue_cleared_on_success_then_appended [of connected_blocking "answering None" COM2] h
    by simp
qed

text \<open>
  C7, as stated: two calls of \<open>disconnect()\<close> in a row, from any state, emit at most one
  \<open>disconnected\<close> event. From \<open>CONNECTED\<close> they emit two.
\<close>

theorem disconnect_twice_emits_twice:
  "state connected_blocking = CONNECTED \<and>
   events connected_blocking = [connected ''COM1''] \<and>
   events disconnected_twice = [connected ''COM1'', disconnected, disconnected]"
  by (simp add: disconnected_twice_def connected_blocking_def eval_simps)

text \<open>
  C7, amended: with no candidate queued, two calls of \<open>disconnect()\<close> in a row leave the
  state \<open>DISCONNECTED\<close>; each call made in a state other than \<open>IDENTIFYING\<close> emits one
  \<open>disconnected\<close> event, so the two calls emit one event when the first is made in
  \<open>IDENTIFYING\<close> and two otherwise.
\<close>

theorem disconnect_twice_without_candidates:
  "available_ports s = [] \<Longrightarrow>
     state (disconnect e (disconnect e s)) = DISCONNECTED \<and>
     events (disconnect e (disconnect e s)) =
       events s @ (if state s = IDENTIFYING then [disconnected]
                   else [disconnected, disconnected])"
  by (cases "state s = IDENTIFYING")
     (simp_all add: disconnect_identifying disconnect_no_candidates)

theorem disconnect_twice_without_candidates_witness:
  "available_ports lone_attempt_in_flight = [] \<and>
   state lone_attempt_in_flight = IDENTIFYING \<and>
   state (disconnect (answering None) (disconnect (answering None) lone_attempt_in_flight))
     = DISCONNECTED \<and>
   events (disconnect (answering None) (disconnect (answering None) lone_attempt_in_flight))
     = events lone_attempt_in_flight @ [disconnected] \<and>
   available_ports connected_blocking = [] \<and>
   state connected_blocking = CONNECTED \<and>
   events (disconnect (answering None) (disconnect (answering None) connected_blocking))
     = events connected_blocking @ [disconnected, disconnected]"
proof -
  have l: "available_ports lone_attempt_in_flight = []"
    "state lone_attempt_in_flight = IDENTIFYING"
    by (simp_all add: lone_attempt_in_flight_def eval_simps)
  have c: "available_ports connected_blocking = []" "state connected_blocking = CONNECTED"
    by (simp_all add: connected_blocking_def eval_simps)
  show ?thesis
    using disconnect_twice_without_candidates [OF l(1), of "answering None"]
      disconnect_twice_without_candidates [OF c(1), of "answering None"] l c
    by simp
qed

text \<open>
  C8, as stated: when the port that is open is removed, the manager goes from \<open>CONNECTED\<close>
  to \<open>DISCONNECTED\<close> and a \<open>send()\<close> afterwards is a no-op. A manager connected on \<open>COM1\<close>
  that has been told of \<open>COM2\<close> opens \<open>COM2\<close> when \<open>COM1\<close> is removed: it ends in
  \<open>IDENTIFYING\<close> with the transport open, and \<open>send()\<close> writes.
\<close>

theorem port_removed_moves_on_to_next_candidate:
  "state connected_simple = CONNECTED \<and>
   portName (serial_port connected_simple) = ''COM1'' \<and>
   state active_port_removed = IDENTIFYING \<and> serial_open active_port_removed \<and>
   portName (serial_port active_port_removed) = ''COM2'' \<and>
   events active_port_removed = [connected ''COM1'', disconnected] \<and>
   written (send ''x'' active_port_removed) = written active_port_removed @ [''x'']"
  by (simp add: active_port_removed_def connected_simple_def eval_simps)

text \<open>
  C8, amended: when a port removed notification names the port that is open, the manager
  does what \<open>disconnect()\<close> does; from \<open>CONNECTED\<close> with no candidate queued this ends in
  \<open>DISCONNECTED\<close> with the \<open>disconnected\<close> event emitted once, and a \<open>send()\<close> afterwards
  is a no-op. Otherwise the ports of that name are taken out of the candidate queue and
  nothing else changes.
\<close>

theorem port_removed_disconnects_or_dequeues:
  "(serial_open s \<and> portName (serial_port s) = portName p \<longrightarrow>
      handle_port_removed e p s = disconnect e s \<and>
      (state s = CONNECTED \<and> available_ports s = [] \<longrightarrow>
         state (handle_port_removed e p s) = DISCONNECTED \<and>
         events (handle_port_removed e p s) = events s @ [disconnected] \<and>
         send data (handle_port_removed e p s) = handle_port_removed e p s)) \<and>
   (\<not> (serial_open s \<and> portName (serial_port s) = portName p) \<longrightarrow>
      handle_port_removed e p s =
        s\<lparr>available_ports := filter (\<lambda>q. portName q \<noteq> portName p) (available_ports s)\<rparr>)"
  by (auto simp: handle_port_removed_def disconnect_no_candidates send_def)

theorem port_removed_disconnects_or_dequeues_witness:
  "serial_open connected_blocking \<and>
   portName (serial_port connected_blocking) = portName COM1 \<and>
   state connected_blocking = CONNECTED \<and> available_ports connected_blocking = [] \<and>
   handle_port_removed (answering None) COM1 connected_blocking =
     disconnect (answering None) connected_blocking \<and>
   state (handle_port_removed (answering None) COM1 connected_blocking) = DISCONNECTED \<and>
   events (handle_port_removed (answering None) COM1 connected_blocking) =
     events connected_blocking @ [disconnected] \<and>
   send ''x'' (handle_port_removed (answering None) COM1 connected_blocking) =
     handle_port_removed (answering None) COM1 connected_blocking \<and>
   portName (serial_port connected_then_port_added) \<noteq> portName COM2 \<and>
   available_ports connected_then_port_added = [COM2] \<and>
   handle_port_removed (answering None) COM2 connected_then_port_added =
     connected_then_port_added\<lparr>available_ports := []\<rparr>"
proof -
  have c: "serial_open connected_blocking"
    "portName (serial_port connected_blocking) = portName COM1"
    "state connected_blocking = CONNECTED" "available_ports connected_blocking = []"
    by (simp_all add: connected_blocking_def eval_simps)
  have a: "portName (serial_port connected_then_port_added) \<noteq> portName COM2"
    "available_ports connected_then_port_added = [COM2]"
    by (simp_all add: connected_then_port_added_def connected_blocking_def eval_simps)
  show ?thesis
    using port_removed_disconnects_or_dequeues
            [of connected_blocking COM1 "answering None" "''x''"]
          port_removed_disconnects_or_dequeues
            [of connected_then_port_added COM2 "answering None" "''x''"]
          c a
    by auto
qed

text \<open>
  C9, as stated: a call of \<open>auto_connect\<close> made in \<open>IDENTIFYING\<close> or \<open>CONNECTED\<close> replaces
  only the stored filters and the candidate queue. A manager connected on \<open>COM1\<close>, with
  no filter and an empty queue, is given the same filters and the same queue by a second
  \<open>auto_connect()\<close>, and yet it is not the same manager: told once that \<open>COM2\<close> was
  added, it now queues \<open>COM2\<close> twice, since the call has connected \<open>_on_port_added\<close> to
  the port monitor once more.
\<close>

theorem auto_connect_while_busy_subscribes_again:
  "state connected_blocking = CONNECTED \<and>
   vid connected_blocking = None \<and> pid connected_blocking = None \<and>
   available_ports connected_blocking = [] \<and>
   available_ports (step (answering (Some ''OK'')) (PortAdded COM2) connected_blocking)
     = [COM2] \<and>
   state connected_again = CONNECTED \<and>
   vid connected_again = None \<and> pid connected_again = None \<and>
   available_ports connected_again = [] \<and>
   available_ports (step (answering (Some ''OK'')) (PortAdded COM2) connected_again)
     = [COM2, COM2]"
  by (simp add: connected_again_def connected_blocking_def eval_simps)

text \<open>
  C9, amended: a call of \<open>auto_connect\<close> made in \<open>IDENTIFYING\<close> or \<open>CONNECTED\<close> leaves the
  state and the transport as they are, since \<open>_try_next_port\<close> returns at once when the
  state is not \<open>DISCONNECTED\<close>; it replaces the stored filters and the candidate queue,
  and it connects \<open>_on_port_added\<close> to the port monitor once more, so that every later
  port added notification is handled once more often. Nothing else changes.
\<close>

theorem auto_connect_while_busy_keeps_state:
  "state s = IDENTIFYING \<or> state s = CONNECTED \<Longrightarrow>
     state (auto_connect e v p ports s) = state s \<and>
     serial_open (auto_connect e v p ports s) = serial_open s \<and>
     auto_connect e v p ports s =
       s\<lparr>vid := v, pid := p, available_ports := ports,
         port_added_conns := Suc (port_added_conns s)\<rparr>"
  by (auto simp: auto_connect_def try_next_port.simps)

theorem auto_connect_while_busy_keeps_state_witness:
  "state connected_blocking = CONNECTED \<and> serial_open connected_blocking \<and>
   state (auto_connect (answering None) (Some 1027) None [COM2] connected_blocking)
     = CONNECTED \<and>
   serial_open (auto_connect (answering None) (Some 1027) None [COM2] connected_blocking) \<and>
   vid (auto_connect (answering None) (Some 1027) None [COM2] connected_blocking)
     = Some 1027 \<and>
   available_ports (auto_connect (answering None) (Some 1027) None [COM2] connected_blocking)
     = [COM2] \<and>
   state attempt_in_flight = IDENTIFYING \<and>
   state (auto_connect (answering None) None None [] attempt_in_flight) = IDENTIFYING"
proof -
  have c: "state connected_blocking = CONNECTED" "serial_open connected_blocking"
    by (simp_all add: connected_blocking_def eval_simps)
  have i: "state attempt_in_flight = IDENTIFYING"
    by (simp add: attempt_in_flight_def eval_simps)
  have c': "state connected_blocking = IDENTIFYING \<or> state connected_blocking = CONNECTED"
    using c(1) by simp
  have i': "state attempt_in_flight = IDENTIFYING \<or> state attempt_in_flight = CONNECTED"
    using i by simp
  show ?thesis
    using auto_connect_while_busy_keeps_state
            [OF c', of "answering None" "Some 1027" None "[COM2]"]
          auto_connect_while_busy_keeps_state [OF i', of "answering None" None None "[]"]
          c i
    by simp
qed

text \<open>
  C10: once an \<open>identified\<close> signal has made the manager emit \<open>connected\<close>, a later
  \<open>identified\<close> or \<open>failed\<close> signal of the identifier changes nothing in the manager and
  emits no event: \<open>_on_identified\<close> has taken every connection of the manager off both
  signals.
\<close>

theorem signals_after_connected_change_nothing:
  assumes "0 < identified_conns s"
  shows "(\<exists>evs. events (deliver_identified s) = evs @ [connected (portName (serial_port s))]) \<and>
         state (deliver_identified s) = CONNECTED \<and>
         identified_conns (deliver_identified s) = 0 \<and>
         failed_conns (deliver_identified s) = 0 \<and>
         deliver_identified (deliver_identified s) = deliver_identified s \<and>
         deliver_failed e (deliver_identified s) = deliver_identified s"
proof -
  have d: "deliver_identified s = on_identified s"
    using assms by (simp add: deliver_identified_def)
  have z: "identified_conns (on_identified s) = 0" "failed_conns (on_identified s) = 0"
    "state (on_identified s) = CONNECTED"
    "events (on_identified s) = events s @ [connected (portName (serial_port s))]"
    by (simp_all add: on_identified_def)
  have again: "deliver_identified (on_identified s) = on_identified s"
    using z(1) by (simp add: deliver_identified_def)
  have failed: "deliver_failed e (on_identified s) = on_identified s"
    using z(2) by (simp add: deliver_failed_def)
  show ?thesis
    unfolding d using z again failed by simp
qed

theorem signals_after_connected_change_nothing_witness:
  "0 < identified_conns attempt_in_flight \<and>
   (\<exists>evs. events (deliver_identified attempt_in_flight) =
            evs @ [connected (portName (serial_port attempt_in_flight))]) \<and>
   state (deliver_identified attempt_in_flight) = CONNECTED \<and>
   identified_conns (deliver_identified attempt_in_flight) = 0 \<and>
   failed_conns (deliver_identified attempt_in_flight) = 0 \<and>
   deliver_identified (deliver_identified attempt_in_flight) =
     deliver_identified attempt_in_flight \<and>
   deliver_failed (answering None) (deliver_identified attempt_in_flight) =
     deliver_identified attempt_in_flight"
proof -
  have h: "0 < identified_conns attempt_in_flight"
    by (simp add: attempt_in_flight_def eval_simps)
  show ?thesis
    using signals_after_connected_change_nothing [OF h, of "answering None"] h by simp
qed

end
